theory Spec2Isabelle
  imports Main "HOL-Library.Multiset"
begin

section \<open>Python strings and values used by the packer module\<close>

text \<open>
  The module is written for Python 2 (\<^verbatim>\<open>#!/usr/bin/python -tt\<close>); the output of
  \<^verbatim>\<open>run_command\<close> is a byte string. A \<open>string\<close> is a list of bytes, \<^verbatim>\<open>\s\<close>
  and \<^verbatim>\<open>str.strip\<close> know the six ASCII whitespace bytes, and \<^verbatim>\<open>str.splitlines\<close>
  breaks at LF, CR and CR LF.
\<close>

datatype py_error = IndexError | KeyError

definition isspace :: "char \<Rightarrow> bool" where
  "isspace c = (c = CHR '' '' \<or> c = CHR 0x09 \<or> c = CHR 0x0A \<or> c = CHR 0x0B
      \<or> c = CHR 0x0C \<or> c = CHR 0x0D)"

definition strip :: "string \<Rightarrow> string" where
  "strip s = rev (dropWhile isspace (rev (dropWhile isspace s)))"

definition lower_char :: "char \<Rightarrow> char" where
  "lower_char c = (let n = (of_char c :: nat) in
     if 65 \<le> n \<and> n \<le> 90 then char_of (n + 32) else c)"

definition lower :: "string \<Rightarrow> string" where
  "lower s = map lower_char s"

text \<open>\<^verbatim>\<open>sep.join(xs)\<close>\<close>

fun join :: "string \<Rightarrow> string list \<Rightarrow> string" where
  "join sep [] = []"
| "join sep [x] = x"
| "join sep (x # y # ys) = x @ sep @ join sep (y # ys)"

text \<open>\<^verbatim>\<open>s.splitlines()\<close>: \<open>cur\<close> is the line read so far.\<close>

fun splitlines_from :: "string \<Rightarrow> string \<Rightarrow> string list" where
  "splitlines_from cur [] = (if cur = [] then [] else [cur])"
| "splitlines_from cur (c # cs) =
     (if c = CHR 0x0A then cur # splitlines_from [] cs
      else if c = CHR 0x0D then
        (case cs of
           [] \<Rightarrow> cur # splitlines_from [] cs
         | d # ds \<Rightarrow> if d = CHR 0x0A then cur # splitlines_from [] ds
                    else cur # splitlines_from [] cs)
      else splitlines_from (cur @ [c]) cs)"

definition splitlines :: "string \<Rightarrow> string list" where
  "splitlines s = splitlines_from [] s"

text \<open>\<^verbatim>\<open>xs[0]\<close> raises IndexError on the empty list.\<close>

definition first :: "'a list \<Rightarrow> py_error + 'a" where
  "first xs = (case xs of [] \<Rightarrow> Inl IndexError | x # _ \<Rightarrow> Inr x)"

text \<open>\<^verbatim>\<open>'%s' % v\<close> for a value that may be \<^verbatim>\<open>None\<close>.\<close>

definition str_opt :: "string option \<Rightarrow> string" where
  "str_opt v = (case v of None \<Rightarrow> ''None'' | Some s \<Rightarrow> s)"

text \<open>\<^verbatim>\<open>'%s' % n\<close> for a non-negative integer.\<close>

definition digit :: "nat \<Rightarrow> char" where
  "digit d = char_of (48 + d)"

function str_nat :: "nat \<Rightarrow> string" where
  "str_nat n = (if n < 10 then [digit n] else str_nat (n div 10) @ [digit (n mod 10)])"
  by pat_completeness auto
termination
  by (relation "measure id") auto

declare str_nat.simps [simp del]

section \<open>The metadata parser of \<^verbatim>\<open>Packer.package_info\<close>\<close>

text \<open>\<^verbatim>\<open>re.match('^\s', line)\<close>\<close>

definition starts_with_space :: "string \<Rightarrow> bool" where
  "starts_with_space line = (case line of [] \<Rightarrow> False | c # _ \<Rightarrow> isspace c)"

text \<open>
  One round of the loop that builds \<^verbatim>\<open>line_acc\<close>: a line that starts with whitespace is
  appended to the last entry (\<^verbatim>\<open>line_acc[-1] += ' ' + line.strip()\<close>), and the
  IndexError of an empty \<^verbatim>\<open>line_acc\<close> is caught and the line appended as an entry.
\<close>

definition acc_line :: "string list \<Rightarrow> string \<Rightarrow> string list" where
  "acc_line line_acc line =
     (if starts_with_space line then
        (if line_acc = [] then [strip line]
         else butlast line_acc @ [last line_acc @ CHR '' '' # strip line])
      else line_acc @ [strip line])"

definition accumulate_lines :: "string list \<Rightarrow> string list" where
  "accumulate_lines ls = foldl acc_line [] ls"

text \<open>
  The regular expression \<^verbatim>\<open>^(.*)\s+:\s*(.*)\<close> on a line (which holds no LF, so \<^verbatim>\<open>.\<close>
  matches every byte of it). \<open>match_tail\<close> matches \<^verbatim>\<open>\s+:\s*(.*)\<close> at the start of
  its argument and returns group 2: the whitespace run must be followed by the colon (a
  shorter run is followed by whitespace, so backtracking into \<^verbatim>\<open>\s+\<close> never helps),
  \<^verbatim>\<open>\s*\<close> takes all the whitespace after the colon and \<^verbatim>\<open>(.*)\<close> the rest.
\<close>

definition match_tail :: "string \<Rightarrow> string option" where
  "match_tail r =
     (case dropWhile isspace r of
        [] \<Rightarrow> None
      | c # rest \<Rightarrow>
          if takeWhile isspace r \<noteq> [] \<and> c = CHR '':'' then Some (dropWhile isspace rest)
          else None)"

text \<open>
  Group 1, \<^verbatim>\<open>(.*)\<close>, is greedy: the matcher tries the longest prefix first and gives
  bytes back one at a time. \<open>split_on_colons\<close> tries the prefixes that hold the first
  byte before the empty prefix.
\<close>

fun split_on_colons :: "string \<Rightarrow> (string \<times> string) option" where
  "split_on_colons [] = (case match_tail [] of Some v \<Rightarrow> Some ([], v) | None \<Rightarrow> None)"
| "split_on_colons (c # cs) =
     (case split_on_colons cs of
        Some (k, v) \<Rightarrow> Some (c # k, v)
      | None \<Rightarrow> (case match_tail (c # cs) of Some v \<Rightarrow> Some ([], v) | None \<Rightarrow> None))"

text \<open>\<^verbatim>\<open>re.findall(split_on_colons, line)\<close>: the pattern is anchored, so at most one match.\<close>

definition findall :: "string \<Rightarrow> (string \<times> string) list" where
  "findall line = (case split_on_colons line of None \<Rightarrow> [] | Some kv \<Rightarrow> [kv])"

text \<open>
  \<^verbatim>\<open>[re.findall(split_on_colons, line)[0] for line in line_acc if line != '']\<close>
\<close>

fun kv_pairs :: "string list \<Rightarrow> py_error + (string \<times> string) list" where
  "kv_pairs [] = Inr []"
| "kv_pairs (line # ls) =
     (if line = [] then kv_pairs ls
      else (case first (findall line) of
              Inl e \<Rightarrow> Inl e
            | Inr kv \<Rightarrow> (case kv_pairs ls of Inl e \<Rightarrow> Inl e | Inr kvs \<Rightarrow> Inr (kv # kvs))))"

text \<open>\<^verbatim>\<open>re.sub(r'\s+', '_', s)\<close>; \<open>prev\<close> says that the byte before was whitespace.\<close>

fun sub_spaces :: "bool \<Rightarrow> string \<Rightarrow> string" where
  "sub_spaces prev [] = []"
| "sub_spaces prev (c # cs) =
     (if isspace c then (if prev then sub_spaces True cs else CHR ''_'' # sub_spaces True cs)
      else c # sub_spaces False cs)"

definition normalize_key :: "string \<Rightarrow> string" where
  "normalize_key k = lower (sub_spaces False (strip k))"

definition normalize_pair :: "string \<times> string \<Rightarrow> string \<times> string" where
  "normalize_pair kv = (normalize_key (fst kv), strip (snd kv))"

text \<open>\<^verbatim>\<open>dict(pairs)\<close>: a later pair with the same key replaces an earlier one.\<close>

definition dict :: "(string \<times> string) list \<Rightarrow> (string \<rightharpoonup> string)" where
  "dict kvs = map_of (rev kvs)"

text \<open>The part of \<^verbatim>\<open>package_info\<close> after the exit code has been checked.\<close>

definition parse_pairs :: "string \<Rightarrow> py_error + (string \<times> string) list" where
  "parse_pairs stdout =
     (case kv_pairs (accumulate_lines (splitlines stdout)) of
        Inl e \<Rightarrow> Inl e
      | Inr kvs \<Rightarrow> Inr (map normalize_pair kvs))"

definition parse_info :: "string \<Rightarrow> py_error + (string \<rightharpoonup> string)" where
  "parse_info stdout =
     (case parse_pairs stdout of Inl e \<Rightarrow> Inl e | Inr kvs \<Rightarrow> Inr (dict kvs))"

section \<open>The host: commands, environment, module parameters\<close>

text \<open>
  Everything the module reads from the host. \<open>respond\<close> is what \<^verbatim>\<open>module.run_command\<close>
  returns (exit code, stdout, stderr) for a command line, given the command lines run
  before it, so that a command can change what later commands answer. \<open>getlogin\<close> is
  \<^verbatim>\<open>os.getlogin()\<close> (\<open>None\<close>: it raises OSError), \<open>get_bin_path\<close> is
  \<^verbatim>\<open>module.get_bin_path\<close>, \<open>getpwuid_name\<close> is \<^verbatim>\<open>pwd.getpwuid(os.getuid())[0]\<close>
  (\<open>None\<close>: it raises KeyError).
\<close>

record env =
  getlogin :: "string option"
  environ :: "string \<rightharpoonup> string"
  get_bin_path :: "string \<rightharpoonup> string"
  getpwuid_name :: "string option"
  respond :: "string list \<Rightarrow> string \<Rightarrow> int \<times> string \<times> string"

text \<open>The log is the list of command lines run so far, oldest first.\<close>

definition run_command :: "env \<Rightarrow> string list \<Rightarrow> string \<Rightarrow> (int \<times> string \<times> string) \<times> string list" where
  "run_command E log cmd = (respond E log cmd, log @ [cmd])"

text \<open>\<^verbatim>\<open>module.params\<close> and \<^verbatim>\<open>module.check_mode\<close>\<close>

record params =
  param_name :: "string list option"
  param_state :: "string option"
  param_root :: "string option"
  param_upgrade :: "bool option"
  check_mode :: bool

text \<open>The two paths that \<^verbatim>\<open>Packer.__init__\<close> stores.\<close>

record packer =
  packer_path :: string
  expac_path :: string

text \<open>
  How a run ends: \<^verbatim>\<open>exit_json(changed, msg)\<close>, \<^verbatim>\<open>fail_json(msg)\<close> (both leave the
  process), or an exception that nothing catches.
\<close>

datatype outcome = ExitJson bool string | FailJson "string option" | Raised py_error

section \<open>\<^verbatim>\<open>class Packer\<close>\<close>

definition normalized_state :: "params \<Rightarrow> string option" where
  "normalized_state M =
     (if param_state M = Some ''present'' \<or> param_state M = Some ''installed'' then Some ''present''
      else if param_state M = Some ''latest'' then Some ''latest''
      else None)"

text \<open>
  \<^verbatim>\<open>should_update\<close> evaluates \<^verbatim>\<open>self.normalized_state == 'latest'\<close> (a bound method
  compared with a string), drops the result and has no \<^verbatim>\<open>return\<close>: it returns
  \<^verbatim>\<open>None\<close> whatever the parameters are.
\<close>

definition should_update :: "params \<Rightarrow> bool option" where
  "should_update M = None"

definition should_upgrade :: "params \<Rightarrow> bool option" where
  "should_upgrade M = param_upgrade M"

text \<open>The truth value of a Python value that is a bool or \<^verbatim>\<open>None\<close>.\<close>

definition truthy :: "bool option \<Rightarrow> bool" where
  "truthy v = (v = Some True)"

definition installed_cmd :: "packer \<Rightarrow> string \<Rightarrow> string" where
  "installed_cmd P name = expac_path P @ '' -Q '' @ [CHR 0x27] @ ''%v'' @ [CHR 0x27] @ '' '' @ name"

definition info_cmd :: "packer \<Rightarrow> string \<Rightarrow> string" where
  "info_cmd P name = packer_path P @ '' -Si --auronly '' @ name"

definition package_installed_version ::
  "env \<Rightarrow> packer \<Rightarrow> string \<Rightarrow> string list \<Rightarrow> (py_error + string option) \<times> string list" where
  "package_installed_version E P name log =
     (case run_command E log (installed_cmd P name) of
        ((rc, stdout, stderr), log') \<Rightarrow>
          if rc \<noteq> 0 then (Inr None, log')
          else (case first (splitlines stdout) of
                  Inl e \<Rightarrow> (Inl e, log')
                | Inr l \<Rightarrow> (Inr (Some (strip l)), log')))"

definition package_info ::
  "env \<Rightarrow> packer \<Rightarrow> string \<Rightarrow> string list \<Rightarrow> (py_error + (string \<rightharpoonup> string) option) \<times> string list" where
  "package_info E P name log =
     (case run_command E log (info_cmd P name) of
        ((rc, stdout, stderr), log') \<Rightarrow>
          if rc \<noteq> 0 then (Inr None, log')
          else (case parse_info stdout of
                  Inl e \<Rightarrow> (Inl e, log')
                | Inr d \<Rightarrow> (Inr (Some d), log')))"

subsection \<open>\<^verbatim>\<open>login_name\<close>\<close>

text \<open>The \<^verbatim>\<open>logname\<close> query inside the \<^verbatim>\<open>except OSError\<close> branch.\<close>

definition logname_query :: "env \<Rightarrow> string list \<Rightarrow> (py_error + string option) \<times> string list" where
  "logname_query E log =
     (case get_bin_path E ''logname'' of
        None \<Rightarrow> (Inr None, log)
      | Some logname_path \<Rightarrow>
          if logname_path = [] then (Inr None, log)
          else (case run_command E log logname_path of
                  ((rc, stdout, stderr), log') \<Rightarrow>
                    if rc = 0 \<and> stdout \<noteq> [] then
                      (case first (splitlines stdout) of
                         Inl e \<Rightarrow> (Inl e, log')
                       | Inr l \<Rightarrow> (Inr (Some (strip l)), log'))
                    else (Inr None, log')))"

definition login_name :: "env \<Rightarrow> string list \<Rightarrow> (py_error + string option) \<times> string list" where
  "login_name E log =
     (case getlogin E of
        Some n \<Rightarrow> (Inr (Some n), log)
      | None \<Rightarrow>
          (case logname_query E log of
             (Inl e, log') \<Rightarrow> (Inl e, log')
           | (Inr l1, log') \<Rightarrow>
               (let l2 = (if l1 = None then environ E ''LOGNAME'' else l1);
                    l3 = (if l2 = None \<or> l2 = Some ''root''
                          then (case environ E ''SUDO_USER'' of None \<Rightarrow> l2 | Some u \<Rightarrow> Some u)
                          else l2)
                in (Inr l3, log'))))"

subsection \<open>\<^verbatim>\<open>check_packages\<close>\<close>

text \<open>The three lists \<^verbatim>\<open>would_change\<close>, \<^verbatim>\<open>already_present\<close>, \<^verbatim>\<open>not_found\<close>.\<close>

type_synonym buckets = "string list \<times> string list \<times> string list"

text \<open>
  One round of the loop over \<^verbatim>\<open>pkgs\<close>; \<open>su\<close> is the value \<^verbatim>\<open>should_update\<close> that
  was read before the loop. \<^verbatim>\<open>package_info['version']\<close> raises KeyError when the key
  is missing, and is only evaluated when the installed version is not \<^verbatim>\<open>None\<close>.
\<close>

definition check_package ::
  "env \<Rightarrow> packer \<Rightarrow> bool option \<Rightarrow> buckets \<Rightarrow> string \<Rightarrow> string list \<Rightarrow> (py_error + buckets) \<times> string list" where
  "check_package E P su b name log =
     (case b of (would_change, already_present, not_found) \<Rightarrow>
      (case package_info E P name log of
         (Inl e, log1) \<Rightarrow> (Inl e, log1)
       | (Inr None, log1) \<Rightarrow> (Inr (would_change, already_present, not_found @ [name]), log1)
       | (Inr (Some info), log1) \<Rightarrow>
           (case package_installed_version E P name log1 of
              (Inl e, log2) \<Rightarrow> (Inl e, log2)
            | (Inr installed, log2) \<Rightarrow>
                if truthy su then
                  (case installed of
                     None \<Rightarrow> (Inr (would_change @ [name], already_present, not_found), log2)
                   | Some v \<Rightarrow>
                       (case info ''version'' of
                          None \<Rightarrow> (Inl KeyError, log2)
                        | Some remote \<Rightarrow>
                            if v \<noteq> remote
                            then (Inr (would_change @ [name], already_present, not_found), log2)
                            else (Inr (would_change, already_present @ [name], not_found), log2)))
                else
                  (case installed of
                     None \<Rightarrow> (Inr (would_change @ [name], already_present, not_found), log2)
                   | Some v \<Rightarrow> (Inr (would_change, already_present @ [name], not_found), log2)))))"

fun check_loop ::
  "env \<Rightarrow> packer \<Rightarrow> bool option \<Rightarrow> string list \<Rightarrow> buckets \<Rightarrow> string list \<Rightarrow> (py_error + buckets) \<times> string list" where
  "check_loop E P su [] b log = (Inr b, log)"
| "check_loop E P su (name # pkgs) b log =
     (case check_package E P su b name log of
        (Inl e, log') \<Rightarrow> (Inl e, log')
      | (Inr b', log') \<Rightarrow> check_loop E P su pkgs b' log')"

definition check_packages ::
  "env \<Rightarrow> packer \<Rightarrow> params \<Rightarrow> string list \<Rightarrow> string list \<Rightarrow> (py_error + buckets) \<times> string list" where
  "check_packages E P M pkgs log = check_loop E P (should_update M) pkgs ([], [], []) log"

subsection \<open>\<^verbatim>\<open>install_packages\<close>\<close>

definition install_cmd :: "string \<Rightarrow> string \<Rightarrow> string" where
  "install_cmd base_cmd name = base_cmd @ '' -S '' @ name"

definition upgrade_cmd :: "string \<Rightarrow> string" where
  "upgrade_cmd base_cmd = base_cmd @ '' -Syu''"

definition install_failure_msg :: "bool \<Rightarrow> string option \<Rightarrow> string \<Rightarrow> string \<Rightarrow> string" where
  "install_failure_msg switched_user login name stderr =
     (let msg = ''failed to install package '' @ name @ '': '' @ stderr
      in if \<not> switched_user
         then msg @ '' (do you have passwordless sudo as user '' @ str_opt login @ ''?)''
         else msg)"

text \<open>
  The loop over \<^verbatim>\<open>pkgs\<close> and the \<^verbatim>\<open>exit_json\<close> that follows it;
  \<^verbatim>\<open>changed\<close> is \<^verbatim>\<open>False | (total_installed >= 1)\<close>.
\<close>

fun install_loop ::
  "env \<Rightarrow> string \<Rightarrow> bool \<Rightarrow> string option \<Rightarrow> string list \<Rightarrow> nat \<Rightarrow> string list \<Rightarrow> outcome \<times> string list" where
  "install_loop E base_cmd switched_user login [] total_installed log =
     (ExitJson (False \<or> total_installed \<ge> 1)
        (''installed '' @ str_nat total_installed @ '' package(s)''), log)"
| "install_loop E base_cmd switched_user login (name # pkgs) total_installed log =
     (case run_command E log (install_cmd base_cmd name) of
        ((rc, stdout, stderr), log') \<Rightarrow>
          if rc \<noteq> 0
          then (FailJson (Some (install_failure_msg switched_user login name stderr)), log')
          else install_loop E base_cmd switched_user login pkgs (total_installed + 1) log')"

text \<open>
  The command prefix: \<open>Inl\<close> is the message of the \<^verbatim>\<open>fail_json\<close> when a switch of
  user is needed and there is no \<^verbatim>\<open>sudo\<close>.
\<close>

definition base_command :: "env \<Rightarrow> packer \<Rightarrow> params \<Rightarrow> bool \<Rightarrow> string option \<Rightarrow> string + string" where
  "base_command E P M switched_user login =
     (case (if switched_user then
              (case get_bin_path E ''sudo'' of
                 None \<Rightarrow> Inl ''unable to locate sudo executable''
               | Some sudo_path \<Rightarrow>
                   Inr (sudo_path @ '' -u '' @ str_opt login @ '' '' @ packer_path P))
            else Inr (packer_path P)) of
        Inl m \<Rightarrow> Inl m
      | Inr b \<Rightarrow>
          (let b1 = b @ '' --auronly --noconfirm --noedit''
           in (case param_root M of
                 None \<Rightarrow> Inr b1
               | Some root \<Rightarrow> if root \<noteq> [] then Inr (b1 @ '' --root '' @ root) else Inr b1)))"

definition install_packages ::
  "env \<Rightarrow> packer \<Rightarrow> params \<Rightarrow> string list \<Rightarrow> string list \<Rightarrow> outcome \<times> string list" where
  "install_packages E P M pkgs log =
     (case login_name E log of
        (Inl e, log1) \<Rightarrow> (Raised e, log1)
      | (Inr login, log1) \<Rightarrow>
          (case getpwuid_name E of
             None \<Rightarrow> (Raised KeyError, log1)
           | Some user \<Rightarrow>
               (let switched_user = (Some user \<noteq> login)
                in (case base_command E P M switched_user login of
                      Inl m \<Rightarrow> (FailJson (Some m), log1)
                    | Inr base_cmd \<Rightarrow>
                        if truthy (should_upgrade M) then
                          (case run_command E log1 (upgrade_cmd base_cmd) of
                             ((rc, stdout, stderr), log2) \<Rightarrow>
                               if rc \<noteq> 0
                               then (FailJson (Some (''failed to upgrade packages: '' @ stderr)), log2)
                               else if length pkgs < 1
                               then (ExitJson True ''upgraded AUR packages'', log2)
                               else install_loop E base_cmd switched_user login pkgs 0 log2)
                        else install_loop E base_cmd switched_user login pkgs 0 log1))))"

subsection \<open>\<^verbatim>\<open>run\<close>\<close>

text \<open>\<^verbatim>\<open>[msg for msg in msgs if msg is not None]\<close>\<close>

fun not_none :: "'a option list \<Rightarrow> 'a list" where
  "not_none [] = []"
| "not_none (None # ms) = not_none ms"
| "not_none (Some m # ms) = m # not_none ms"

text \<open>
  \<^verbatim>\<open>pkgs = self.module.params.get('name', [])\<close>, with \<^verbatim>\<open>None\<close> replaced by the
  empty list.
\<close>

definition requested_names :: "params \<Rightarrow> string list" where
  "requested_names M = (case param_name M of None \<Rightarrow> [] | Some ns \<Rightarrow> ns)"

text \<open>The three messages, as \<^verbatim>\<open>run\<close> has them after its three \<^verbatim>\<open>if\<close>s.\<close>

definition would_update_msg :: "string option \<Rightarrow> string list \<Rightarrow> string" where
  "would_update_msg state would_update =
     (if length would_update \<ge> 1 then ''would update '' @ join '', '' would_update
      else ''all packages already '' @ str_opt state)"

definition already_present_msg :: "string option \<Rightarrow> string list \<Rightarrow> string option" where
  "already_present_msg state already_present =
     (if length already_present \<ge> 1
      then Some (join '', '' already_present @ '' already '' @ str_opt state)
      else None)"

definition not_found_msg :: "string list \<Rightarrow> string option" where
  "not_found_msg not_found =
     (if length not_found \<ge> 1 then Some (''could not find '' @ join '', '' not_found) else None)"

definition run :: "env \<Rightarrow> packer \<Rightarrow> params \<Rightarrow> string list \<Rightarrow> outcome \<times> string list" where
  "run E P M log =
     (let pkgs = requested_names M;
          state = normalized_state M
      in (case check_packages E P M pkgs log of
            (Inl e, log1) \<Rightarrow> (Raised e, log1)
          | (Inr (would_update, already_present, not_found), log1) \<Rightarrow>
              (let changed = (length would_update \<ge> 1);
                   failed = (length not_found \<ge> 1)
               in if check_mode M then
                    (ExitJson changed
                       (join ''; '' (not_none [Some (would_update_msg state would_update),
                                               already_present_msg state already_present,
                                               not_found_msg not_found])),
                     log1)
                  else if failed then (FailJson (not_found_msg not_found), log1)
                  else if \<not> changed \<and> \<not> truthy (should_upgrade M) then
                    (ExitJson changed (would_update_msg state would_update), log1)
                  else install_packages E P M would_update log1)))"

text \<open>\<^verbatim>\<open>main\<close>: the constructor looks the two executables up, then \<^verbatim>\<open>run\<close>.\<close>

definition main :: "env \<Rightarrow> params \<Rightarrow> string list \<Rightarrow> outcome \<times> string list" where
  "main E M log =
     (case get_bin_path E ''packer'' of
        None \<Rightarrow> (FailJson (Some ''unable to find packer executable''), log)
      | Some pp \<Rightarrow>
          (case get_bin_path E ''expac'' of
             None \<Rightarrow> (FailJson (Some ''unable to find expac executable''), log)
           | Some ep \<Rightarrow> run E \<lparr>packer_path = pp, expac_path = ep\<rparr> M log))"

section \<open>The action plugin \<^verbatim>\<open>ActionModule.run\<close>\<close>

text \<open>
  \<open>super_run\<close> is \<^verbatim>\<open>ActionBase.run\<close> and \<open>execute_module\<close> is
  \<^verbatim>\<open>ActionBase._execute_module\<close>, both of the calling runtime. The plugin returns the
  result dictionary, and the model also returns the modules it had executed, each with
  the arguments it was given.
\<close>

definition select_module :: "(string \<rightharpoonup> string) \<Rightarrow> string" where
  "select_module args =
     (if args ''state'' = Some ''absent'' \<or> args ''state'' = Some ''removed'' then ''pacman''
      else ''packer'')"

definition action_run ::
  "((string \<rightharpoonup> 'v) \<Rightarrow> (string \<rightharpoonup> 'r)) \<Rightarrow>
   (string \<Rightarrow> (string \<rightharpoonup> string) \<Rightarrow> (string \<rightharpoonup> 'v) \<Rightarrow> (string \<rightharpoonup> 'r)) \<Rightarrow>
   (string \<rightharpoonup> string) \<Rightarrow> (string \<rightharpoonup> 'v) option \<Rightarrow>
   (string \<rightharpoonup> 'r) \<times> (string \<times> (string \<rightharpoonup> string)) list" where
  "action_run super_run execute_module args task_vars =
     (let tv = (case task_vars of None \<Rightarrow> Map.empty | Some t \<Rightarrow> t);
          result = super_run tv;
          module = select_module args
      in (result ++ execute_module module args tv, [(module, args)]))"

section \<open>Predicates and example hosts used in the statements\<close>

text \<open>
  The delimiter of the pattern \<^verbatim>\<open>^(.*)\s+:\s*(.*)\<close> is a colon that follows
  whitespace (whitespace after the colon is optional). \<open>has_delimiter s\<close> says that
  \<open>s\<close> holds one.
\<close>

fun has_delimiter :: "string \<Rightarrow> bool" where
  "has_delimiter (a # b # cs) = ((isspace a \<and> b = CHR '':'') \<or> has_delimiter (b # cs))"
| "has_delimiter [a] = False"
| "has_delimiter [] = False"

text \<open>
  An example host. \<^verbatim>\<open>cower\<close> is installed in version 1.0 and the AUR has 2.0;
  \<^verbatim>\<open>foo\<close> and \<^verbatim>\<open>baz\<close> are in the AUR and not installed; the description of
  \<^verbatim>\<open>tool\<close> holds a colon between blanks; the answer for \<^verbatim>\<open>broken\<close> has a line
  without delimiter; the installed-version query for \<^verbatim>\<open>ghost\<close> succeeds and prints
  nothing; every other query fails. Run without a switch of user, the bulk upgrade and the
  installs of \<^verbatim>\<open>foo\<close> and \<^verbatim>\<open>baz\<close> succeed; every other command fails.
\<close>

definition example_packer :: packer where
  "example_packer = \<lparr>packer_path = ''/usr/bin/packer'', expac_path = ''/usr/bin/expac''\<rparr>"

definition example_base :: string where
  "example_base = ''/usr/bin/packer --auronly --noconfirm --noedit''"

definition example_respond :: "string list \<Rightarrow> string \<Rightarrow> int \<times> string \<times> string" where
  "example_respond h c =
     (if c = info_cmd example_packer ''cower''
        then (0, ''Name           : cower'' @ [CHR 0x0A] @ ''Version        : 2.0'' @ [CHR 0x0A], [])
      else if c = installed_cmd example_packer ''cower'' then (0, ''1.0'' @ [CHR 0x0A], [])
      else if c = info_cmd example_packer ''foo'' then (0, ''Version : 1.2'', [])
      else if c = info_cmd example_packer ''baz'' then (0, ''Version : 0.3'', [])
      else if c = info_cmd example_packer ''tool'' then (0, ''Description : Tool : a helper'', [])
      else if c = info_cmd example_packer ''broken'' then (0, ''Name: broken'', [])
      else if c = installed_cmd example_packer ''ghost'' then (0, [], [])
      else if c = upgrade_cmd example_base then (0, [], [])
      else if c = install_cmd example_base ''foo'' then (0, [], [])
      else if c = install_cmd example_base ''baz'' then (0, [], [])
      else (1, [], ''error''))"

text \<open>The session belongs to root, and the process runs as root after \<^verbatim>\<open>sudo\<close> by alice.\<close>

definition example_env :: env where
  "example_env =
     \<lparr>getlogin = Some ''root'',
      environ = [''SUDO_USER'' \<mapsto> ''alice''],
      get_bin_path = [''sudo'' \<mapsto> ''/usr/bin/sudo''],
      getpwuid_name = Some ''root'',
      respond = example_respond\<rparr>"

text \<open>The same host when \<^verbatim>\<open>os.getlogin()\<close> raises OSError.\<close>

definition example_env_nologin :: env where
  "example_env_nologin = example_env\<lparr>getlogin := None\<rparr>"

text \<open>The same host when the session belongs to alice and the process runs as root.\<close>

definition example_env_alice :: env where
  "example_env_alice = example_env\<lparr>getlogin := Some ''alice''\<rparr>"

definition example_params :: "string list \<Rightarrow> string \<Rightarrow> bool \<Rightarrow> params" where
  "example_params names state dry =
     \<lparr>param_name = Some names, param_state = Some state, param_root = None,
      param_upgrade = None, check_mode = dry\<rparr>"

text \<open>
  A host whose remote query prints a record that is wrapped over two lines: the second
  line of \<^verbatim>\<open>Optional Deps\<close> starts with blanks.
\<close>

definition example_wrapped :: string where
  "example_wrapped =
     ''Name : cower'' @ [CHR 0x0A] @ ''Optional Deps : git'' @ [CHR 0x0A] @ ''                sudo''"

definition example_env_wrapped :: env where
  "example_env_wrapped = example_env\<lparr>respond := (\<lambda>h c. (0, example_wrapped, []))\<rparr>"

text \<open>The example host when \<^verbatim>\<open>ghost\<close> is in the AUR.\<close>

definition example_env_ghost :: env where
  "example_env_ghost =
     example_env\<lparr>respond := (\<lambda>h c. if c = info_cmd example_packer ''ghost''
                                     then (0, ''Version : 1.0'', []) else example_respond h c)\<rparr>"

section \<open>The parser: when the pattern matches, and where it splits\<close>

lemma colon_not_space: "\<not> isspace CHR '':''"
  by (simp add: isspace_def)

lemma match_tail_Nil: "match_tail [] = None"
  by (simp add: match_tail_def)

lemma match_tail_Cons:
  "match_tail (c # cs) =
     (if isspace c then
        (case cs of [] \<Rightarrow> None
         | d # ds \<Rightarrow> if d = CHR '':'' then Some (dropWhile isspace ds) else match_tail cs)
      else None)"
proof (cases cs)
  case Nil
  then show ?thesis by (simp add: match_tail_def)
next
  case (Cons d ds)
  show ?thesis
  proof (cases "isspace d")
    case True
    then have "d \<noteq> CHR '':''" using colon_not_space by auto
    with Cons True show ?thesis
      by (simp add: match_tail_def cong: list.case_cong)
  next
    case False
    with Cons show ?thesis
      by (simp add: match_tail_def)
  qed
qed

lemma match_tail_has_delimiter: "match_tail r = Some v \<Longrightarrow> has_delimiter r"
proof (induction r)
  case Nil
  then show ?case by (simp add: match_tail_Nil)
next
  case (Cons c cs)
  then show ?case
    by (cases cs) (auto simp: match_tail_Cons split: if_splits)
qed

lemma split_on_colons_None_iff: "split_on_colons s = None \<longleftrightarrow> \<not> has_delimiter s"
proof (induction s)
  case Nil
  then show ?case by (simp add: match_tail_Nil)
next
  case (Cons c cs)
  show ?case
  proof (cases cs)
    case Nil
    then show ?thesis by (simp add: match_tail_Cons match_tail_Nil)
  next
    case (Cons d ds)
    with Cons.IH show ?thesis
      using match_tail_has_delimiter [of cs]
      by (auto simp: match_tail_Cons split: option.splits if_splits)
  qed
qed

lemma has_delimiter_Cons: "has_delimiter s \<Longrightarrow> has_delimiter (c # s)"
  by (cases s) auto

lemma has_delimiter_dropWhile: "has_delimiter (dropWhile Q s) \<Longrightarrow> has_delimiter s"
  by (induction s) (auto split: if_splits intro: has_delimiter_Cons)

lemma match_tail_value: "match_tail r = Some v \<Longrightarrow> has_delimiter v \<Longrightarrow> has_delimiter (tl r)"
proof (induction r)
  case Nil
  then show ?case by (simp add: match_tail_Nil)
next
  case (Cons c cs)
  then show ?case
    by (cases cs) (auto simp: match_tail_Cons split: if_splits dest: has_delimiter_dropWhile intro: has_delimiter_Cons)
qed

lemma split_on_colons_value: "split_on_colons s = Some (k, v) \<Longrightarrow> \<not> has_delimiter v"
proof (induction s arbitrary: k)
  case Nil
  then show ?case by (simp add: match_tail_Nil)
next
  case (Cons c cs)
  show ?case
  proof (cases "split_on_colons cs")
    case None
    then have nd: "\<not> has_delimiter cs" by (simp add: split_on_colons_None_iff)
    from Cons.prems None have "match_tail (c # cs) = Some v"
      by (auto split: option.splits)
    with nd show ?thesis using match_tail_value [of "c # cs" v] by auto
  next
    case (Some kv)
    with Cons show ?thesis by (cases kv) auto
  qed
qed

lemma kv_pairs_IndexError:
  "line \<in> set ls \<Longrightarrow> line \<noteq> [] \<Longrightarrow> \<not> has_delimiter line \<Longrightarrow> kv_pairs ls = Inl IndexError"
proof (induction ls)
  case Nil
  then show ?case by simp
next
  case (Cons l ls)
  show ?case
  proof (cases "l = line")
    case True
    with Cons.prems show ?thesis
      by (simp add: findall_def first_def split_on_colons_None_iff [THEN iffD2])
  next
    case False
    with Cons have "kv_pairs ls = Inl IndexError" by simp
    then show ?thesis
      by (cases "first (findall l)") (auto simp: first_def findall_def split: option.splits list.splits)
  qed
qed

lemma kv_pairs_error_is_IndexError: "kv_pairs ls = Inl e \<Longrightarrow> e = IndexError"
  by (induction ls arbitrary: e) (auto simp: first_def findall_def split: if_splits option.splits sum.splits)

lemma kv_pairs_Inl_iff:
  "(\<exists>e. kv_pairs ls = Inl e) \<longleftrightarrow> (\<exists>line \<in> set ls. line \<noteq> [] \<and> \<not> has_delimiter line)"
proof (induction ls)
  case Nil
  then show ?case by simp
next
  case (Cons l ls)
  show ?case
  proof (cases "l = [] \<or> has_delimiter l")
    case True
    then consider "l = []" | kv where "l \<noteq> []" "split_on_colons l = Some kv"
      using split_on_colons_None_iff [of l] by (cases "split_on_colons l") auto
    then show ?thesis
    proof cases
      case 1
      with Cons show ?thesis by simp
    next
      case 2
      with True Cons show ?thesis
        by (cases "kv_pairs ls") (auto simp: first_def findall_def)
    qed
  next
    case False
    then have "kv_pairs (l # ls) = Inl IndexError"
      by (intro kv_pairs_IndexError [of l]) auto
    with False show ?thesis by auto
  qed
qed

section \<open>Classification: buckets and commands\<close>

lemma snd_package_info: "snd (package_info E P name log) = log @ [info_cmd P name]"
  by (simp add: package_info_def run_command_def split: prod.splits sum.splits)

lemma snd_package_installed_version:
  "snd (package_installed_version E P name log) = log @ [installed_cmd P name]"
  by (simp add: package_installed_version_def run_command_def split: prod.splits sum.splits)

lemma package_info_not_found:
  "fst (respond E log (info_cmd P name)) \<noteq> 0 \<Longrightarrow>
   package_info E P name log = (Inr None, log @ [info_cmd P name])"
  by (auto simp: package_info_def run_command_def split: prod.splits)

lemma package_info_None_iff:
  "fst (package_info E P name log) = Inr None \<longleftrightarrow> fst (respond E log (info_cmd P name)) \<noteq> 0"
  by (auto simp: package_info_def run_command_def split: prod.splits sum.splits)

lemma check_package_not_found:
  "fst (respond E log (info_cmd P name)) \<noteq> 0 \<Longrightarrow>
   check_package E P su (wc, ap, nf) name log = (Inr (wc, ap, nf @ [name]), log @ [info_cmd P name])"
  by (simp add: check_package_def package_info_not_found)

lemma check_package_log:
  "snd (check_package E P su b name log) = log @ [info_cmd P name] \<or>
   (fst (respond E log (info_cmd P name)) = 0 \<and>
    snd (check_package E P su b name log) = log @ [info_cmd P name, installed_cmd P name])"
proof (cases "package_info E P name log")
  case (Pair r log1)
  then have l1: "log1 = log @ [info_cmd P name]"
    using snd_package_info [of E P name log] by simp
  show ?thesis
  proof (cases "package_installed_version E P name log1")
    case iv: (Pair r2 log2)
    then have l2: "log2 = log1 @ [installed_cmd P name]"
      using snd_package_installed_version [of E P name log1] by simp
    from Pair have rc: "r \<noteq> Inr None \<Longrightarrow> fst (respond E log (info_cmd P name)) = 0"
      using package_info_None_iff [of E P name log] by auto
    show ?thesis
      using Pair iv l1 l2 rc
      by (cases b) (auto simp: check_package_def split: sum.splits option.splits)
  qed
qed

lemma check_package_buckets:
  assumes "check_package E P su (wc, ap, nf) name log = (Inr b', log')"
  shows "b' = (wc @ [name], ap, nf) \<or> b' = (wc, ap @ [name], nf) \<or> b' = (wc, ap, nf @ [name])"
  using assms
  by (auto simp: check_package_def split: prod.splits sum.splits option.splits if_splits)

lemma check_loop_mset:
  "check_loop E P su pkgs (wc, ap, nf) log = (Inr (wc', ap', nf'), log') \<Longrightarrow>
   mset wc' + mset ap' + mset nf' = mset wc + mset ap + mset nf + mset pkgs"
proof (induction pkgs arbitrary: wc ap nf log)
  case Nil
  then show ?case by simp
next
  case (Cons name pkgs)
  obtain r log1 where cp: "check_package E P su (wc, ap, nf) name log = (r, log1)"
    by (cases "check_package E P su (wc, ap, nf) name log") auto
  with Cons.prems obtain b1 where r: "r = Inr b1"
    by (cases r) auto
  from cp r have "b1 = (wc @ [name], ap, nf) \<or> b1 = (wc, ap @ [name], nf) \<or> b1 = (wc, ap, nf @ [name])"
    using check_package_buckets by blast
  moreover from Cons.prems cp r
  have "check_loop E P su pkgs b1 log1 = (Inr (wc', ap', nf'), log')" by simp
  ultimately show ?case
    using Cons.IH by (elim disjE) (auto simp: ac_simps)
qed

lemma check_loop_not_found:
  assumes nf_n: "\<forall>h. fst (respond E h (info_cmd P n)) \<noteq> 0"
  shows "check_loop E P su pkgs (wc, ap, nf) log = (Inr (wc', ap', nf'), log') \<Longrightarrow>
   count_list wc' n = count_list wc n \<and> count_list ap' n = count_list ap n \<and>
   count_list nf' n = count_list nf n + count_list pkgs n"
proof (induction pkgs arbitrary: wc ap nf log)
  case Nil
  then show ?case by simp
next
  case (Cons name pkgs)
  obtain r log1 where cp: "check_package E P su (wc, ap, nf) name log = (r, log1)"
    by (cases "check_package E P su (wc, ap, nf) name log") auto
  with Cons.prems obtain b1 where r: "r = Inr b1"
    by (cases r) auto
  from Cons.prems cp r
  have loop: "check_loop E P su pkgs b1 log1 = (Inr (wc', ap', nf'), log')" by simp
  show ?case
  proof (cases "name = n")
    case True
    with cp r nf_n have "b1 = (wc, ap, nf @ [n])"
      by (simp add: check_package_not_found)
    with loop Cons.IH [of wc ap "nf @ [n]" log1] True show ?thesis by simp
  next
    case False
    from cp r have "b1 = (wc @ [name], ap, nf) \<or> b1 = (wc, ap @ [name], nf) \<or> b1 = (wc, ap, nf @ [name])"
      using check_package_buckets by blast
    with loop False show ?thesis
      using Cons.IH by (elim disjE) fastforce+
  qed
qed

lemma check_loop_log:
  assumes nf_n: "\<forall>h. fst (respond E h (info_cmd P n)) \<noteq> 0"
  shows "\<exists>new. snd (check_loop E P su pkgs b log) = log @ new \<and>
     (\<forall>c \<in> set new. (\<exists>m \<in> set pkgs. c = info_cmd P m) \<or>
                      (\<exists>m \<in> set pkgs. m \<noteq> n \<and> c = installed_cmd P m))"
proof (induction pkgs arbitrary: b log)
  case Nil
  then show ?case by simp
next
  case (Cons name pkgs)
  obtain r log1 where cp: "check_package E P su b name log = (r, log1)"
    by (cases "check_package E P su b name log") auto
  have step: "log1 = log @ [info_cmd P name] \<or>
      (name \<noteq> n \<and> log1 = log @ [info_cmd P name, installed_cmd P name])"
    using check_package_log [of E P su b name log] cp nf_n by auto
  show ?case
  proof (cases r)
    case (Inl e)
    with cp step show ?thesis by auto
  next
    case (Inr b1)
    from Cons.IH [of b1 log1] obtain new where
      new: "snd (check_loop E P su pkgs b1 log1) = log1 @ new"
           "\<forall>c \<in> set new. (\<exists>m \<in> set pkgs. c = info_cmd P m) \<or>
                      (\<exists>m \<in> set pkgs. m \<noteq> n \<and> c = installed_cmd P m)"
      by blast
    from step show ?thesis
    proof
      assume "log1 = log @ [info_cmd P name]"
      with cp Inr new have "snd (check_loop E P su (name # pkgs) b log) = log @ (info_cmd P name # new)"
        by simp
      moreover from new(2) have "\<forall>c \<in> set (info_cmd P name # new).
           (\<exists>m \<in> set (name # pkgs). c = info_cmd P m) \<or>
           (\<exists>m \<in> set (name # pkgs). m \<noteq> n \<and> c = installed_cmd P m)"
        by auto
      ultimately show ?thesis by blast
    next
      assume a: "name \<noteq> n \<and> log1 = log @ [info_cmd P name, installed_cmd P name]"
      with cp Inr new have "snd (check_loop E P su (name # pkgs) b log)
          = log @ (info_cmd P name # installed_cmd P name # new)"
        by simp
      moreover from new(2) a have "\<forall>c \<in> set (info_cmd P name # installed_cmd P name # new).
           (\<exists>m \<in> set (name # pkgs). c = info_cmd P m) \<or>
           (\<exists>m \<in> set (name # pkgs). m \<noteq> n \<and> c = installed_cmd P m)"
        by auto
      ultimately show ?thesis by blast
    qed
  qed
qed

section \<open>Installation, reporting, identity, dispatch\<close>

lemma install_loop_Cons_ok:
  "fst (respond E log (install_cmd b name)) = 0 \<Longrightarrow>
   install_loop E b sw login (name # pkgs) t log =
     install_loop E b sw login pkgs (t + 1) (log @ [install_cmd b name])"
  by (cases "respond E log (install_cmd b name)") (simp add: run_command_def)

lemma install_loop_Cons_fail:
  "respond E log (install_cmd b name) = (rc, out, err) \<Longrightarrow> rc \<noteq> 0 \<Longrightarrow>
   install_loop E b sw login (name # pkgs) t log =
     (FailJson (Some (install_failure_msg sw login name err)), log @ [install_cmd b name])"
  by (simp add: run_command_def)

lemma install_loop_fail:
  "k < length pkgs \<Longrightarrow>
   (\<forall>i<k. fst (respond E (log @ map (install_cmd b) (take i pkgs)) (install_cmd b (pkgs ! i))) = 0) \<Longrightarrow>
   respond E (log @ map (install_cmd b) (take k pkgs)) (install_cmd b (pkgs ! k)) = (rc, out, err) \<Longrightarrow>
   rc \<noteq> 0 \<Longrightarrow>
   install_loop E b sw login pkgs t log =
     (FailJson (Some (install_failure_msg sw login (pkgs ! k) err)),
      log @ map (install_cmd b) (take (Suc k) pkgs))"
proof (induction pkgs arbitrary: k t log)
  case Nil
  then show ?case by simp
next
  case (Cons name pkgs)
  show ?case
  proof (cases k)
    case 0
    with Cons.prems show ?thesis by (simp add: install_loop_Cons_fail del: install_loop.simps)
  next
    case (Suc k')
    from Cons.prems(2) Suc have first: "fst (respond E log (install_cmd b name)) = 0"
      by (auto dest: spec [of _ 0])
    have rest: "\<forall>i<k'. fst (respond E ((log @ [install_cmd b name]) @ map (install_cmd b) (take i pkgs))
                  (install_cmd b (pkgs ! i))) = 0"
    proof (intro allI impI)
      fix i assume "i < k'"
      with Cons.prems(2) Suc show "fst (respond E ((log @ [install_cmd b name]) @ map (install_cmd b) (take i pkgs))
                  (install_cmd b (pkgs ! i))) = 0"
        by (auto dest: spec [of _ "Suc i"])
    qed
    from Cons.prems Suc have
      "install_loop E b sw login pkgs (t + 1) (log @ [install_cmd b name]) =
        (FailJson (Some (install_failure_msg sw login (pkgs ! k') err)),
         (log @ [install_cmd b name]) @ map (install_cmd b) (take (Suc k') pkgs))"
      by (intro Cons.IH [OF _ rest]) auto
    with first Suc show ?thesis
      by (simp add: install_loop_Cons_ok del: install_loop.simps)
  qed
qed

lemma install_loop_success:
  "(\<forall>i<length pkgs. fst (respond E (log @ map (install_cmd b) (take i pkgs)) (install_cmd b (pkgs ! i))) = 0) \<Longrightarrow>
   install_loop E b sw login pkgs t log =
     (ExitJson (t + length pkgs \<ge> 1) (''installed '' @ str_nat (t + length pkgs) @ '' package(s)''),
      log @ map (install_cmd b) pkgs)"
proof (induction pkgs arbitrary: t log)
  case Nil
  then show ?case by simp
next
  case (Cons name pkgs)
  from Cons.prems have first: "fst (respond E log (install_cmd b name)) = 0"
    by (auto dest: spec [of _ 0])
  have rest: "\<forall>i<length pkgs. fst (respond E ((log @ [install_cmd b name]) @ map (install_cmd b) (take i pkgs))
                  (install_cmd b (pkgs ! i))) = 0"
  proof (intro allI impI)
    fix i assume "i < length pkgs"
    with Cons.prems show "fst (respond E ((log @ [install_cmd b name]) @ map (install_cmd b) (take i pkgs))
                  (install_cmd b (pkgs ! i))) = 0"
      by (auto dest: spec [of _ "Suc i"])
  qed
  from Cons.IH [OF rest, of "t + 1"] first show ?case
    by (simp add: install_loop_Cons_ok del: install_loop.simps)
qed

lemma install_loop_log:
  "\<exists>k \<le> length pkgs. snd (install_loop E b sw login pkgs t log) = log @ map (install_cmd b) (take k pkgs)"
proof (induction pkgs arbitrary: t log)
  case Nil
  then show ?case by simp
next
  case (Cons name pkgs)
  show ?case
  proof (cases "fst (respond E log (install_cmd b name)) = 0")
    case True
    from Cons.IH [of "t + 1" "log @ [install_cmd b name]"] obtain k where
      k: "k \<le> length pkgs"
         "snd (install_loop E b sw login pkgs (t + 1) (log @ [install_cmd b name]))
            = (log @ [install_cmd b name]) @ map (install_cmd b) (take k pkgs)"
      by blast
    with True have "snd (install_loop E b sw login (name # pkgs) t log)
        = log @ map (install_cmd b) (take (Suc k) (name # pkgs))"
      by (simp add: install_loop_Cons_ok del: install_loop.simps)
    with k(1) show ?thesis by (intro exI [of _ "Suc k"]) simp
  next
    case False
    then have "snd (install_loop E b sw login (name # pkgs) t log)
        = log @ map (install_cmd b) (take (Suc 0) (name # pkgs))"
      by (cases "respond E log (install_cmd b name)") (simp add: install_loop_Cons_fail del: install_loop.simps)
    then show ?thesis by (intro exI [of _ "Suc 0"]) simp
  qed
qed

lemma install_packages_unfold:
  assumes "login_name E log = (Inr login, log1)" "getpwuid_name E = Some user"
    "base_command E P M (Some user \<noteq> login) login = Inr base"
  shows "install_packages E P M pkgs log =
     (if truthy (should_upgrade M) then
        (case run_command E log1 (upgrade_cmd base) of
           ((rc, stdout, stderr), log2) \<Rightarrow>
             if rc \<noteq> 0 then (FailJson (Some (''failed to upgrade packages: '' @ stderr)), log2)
             else if length pkgs < 1 then (ExitJson True ''upgraded AUR packages'', log2)
             else install_loop E base (Some user \<noteq> login) login pkgs 0 log2)
      else install_loop E base (Some user \<noteq> login) login pkgs 0 log1)"
  using assms by (simp add: install_packages_def Let_def)

lemma base_command_prefix:
  "base_command E P M sw login = Inr base \<Longrightarrow>
   (sw \<longrightarrow> (\<exists>sudo_path rest. get_bin_path E ''sudo'' = Some sudo_path \<and>
              base = sudo_path @ '' -u '' @ str_opt login @ '' '' @ packer_path P @ rest)) \<and>
   (\<not> sw \<longrightarrow> (\<exists>rest. base = packer_path P @ rest))"
  by (auto simp: base_command_def Let_def split: option.splits if_splits)

lemma run_check_mode:
  assumes "check_mode M"
  shows "run E P M log =
     (case check_packages E P M (requested_names M) log of
        (Inl e, log1) \<Rightarrow> (Raised e, log1)
      | (Inr (wu, ap, nf), log1) \<Rightarrow>
          (ExitJson (wu \<noteq> [])
             (join ''; '' (not_none [Some (would_update_msg (normalized_state M) wu),
                                     already_present_msg (normalized_state M) ap,
                                     not_found_msg nf])), log1))"
  using assms
  by (auto simp: run_def Let_def Suc_le_eq split: prod.splits sum.splits)

lemma run_not_found_exec:
  assumes "\<not> check_mode M" "check_packages E P M (requested_names M) log = (Inr (wu, ap, nf), log1)"
    "nf \<noteq> []"
  shows "run E P M log = (FailJson (Some (''could not find '' @ join '', '' nf)), log1)"
  using assms
  by (auto simp: run_def Let_def Suc_le_eq not_found_msg_def split: prod.splits sum.splits)

lemma login_name_getlogin: "getlogin E = Some n \<Longrightarrow> login_name E log = (Inr (Some n), log)"
  by (simp add: login_name_def)

lemma login_name_fallback:
  assumes "getlogin E = None" "logname_query E log = (Inr l1, log')"
    "l2 = (case l1 of None \<Rightarrow> environ E ''LOGNAME'' | Some x \<Rightarrow> Some x)"
  shows "(l2 = None \<or> l2 = Some ''root'' \<longrightarrow>
           (\<forall>u. environ E ''SUDO_USER'' = Some u \<longrightarrow> login_name E log = (Inr (Some u), log')) \<and>
           (environ E ''SUDO_USER'' = None \<longrightarrow> login_name E log = (Inr l2, log'))) \<and>
         (l2 \<noteq> None \<and> l2 \<noteq> Some ''root'' \<longrightarrow> login_name E log = (Inr l2, log'))"
  using assms by (cases l1) (auto simp: login_name_def Let_def)

lemma action_run_cases:
  "action_run super_run execute_module args task_vars =
     (let tv = (case task_vars of None \<Rightarrow> Map.empty | Some t \<Rightarrow> t) in
      if args ''state'' = Some ''absent'' \<or> args ''state'' = Some ''removed''
      then (super_run tv ++ execute_module ''pacman'' args tv, [(''pacman'', args)])
      else (super_run tv ++ execute_module ''packer'' args tv, [(''packer'', args)]))"
  by (simp add: action_run_def select_module_def Let_def)

section \<open>Claims about the package inspector\<close>

lemma acc_line_append:
  "C \<noteq> [] \<Longrightarrow> acc_line (B @ C) y = B @ acc_line C y"
  by (simp add: acc_line_def butlast_append)

lemma acc_line_not_Nil: "acc_line C y \<noteq> []"
  by (simp add: acc_line_def)

lemma foldl_acc_line_append:
  "C \<noteq> [] \<Longrightarrow> foldl acc_line (B @ C) ys = B @ foldl acc_line C ys"
  by (induction ys arbitrary: C) (simp_all add: acc_line_append acc_line_not_Nil)

lemma has_delimiter_append: "has_delimiter xs \<Longrightarrow> has_delimiter (xs @ ys)"
  by (induction xs rule: has_delimiter.induct) auto

lemma strip_key_line:
  assumes "l \<noteq> []" "\<not> starts_with_space l"
  shows "strip l \<noteq> []" and "has_delimiter (strip l) \<Longrightarrow> has_delimiter l"
proof -
  from assms obtain c cs where l: "l = c # cs" and c: "\<not> isspace c"
    by (cases l) (auto simp: starts_with_space_def)
  then have dl: "dropWhile isspace l = l" by simp
  from l c have "\<exists>x \<in> set (rev l). \<not> isspace x" by auto
  then have "dropWhile isspace (rev l) \<noteq> []"
    by (simp add: dropWhile_eq_Nil_conv)
  with dl show "strip l \<noteq> []" by (simp add: strip_def)
  have "l = rev (dropWhile isspace (rev l)) @ rev (takeWhile isspace (rev l))"
    by (metis rev_append rev_rev_ident takeWhile_dropWhile_id)
  with dl have "l = strip l @ rev (takeWhile isspace (rev l))"
    by (simp add: strip_def)
  then show "has_delimiter (strip l) \<Longrightarrow> has_delimiter l"
    using has_delimiter_append by metis
qed

lemma accumulate_lines_key_line:
  assumes "\<not> starts_with_space l" "after = [] \<or> \<not> starts_with_space (hd after)"
  shows "strip l \<in> set (accumulate_lines (before @ l # after))"
proof -
  let ?A = "foldl acc_line [] before"
  have step: "accumulate_lines (before @ l # after) = foldl acc_line (?A @ [strip l]) after"
    using assms(1) by (simp add: accumulate_lines_def acc_line_def)
  show ?thesis
  proof (cases after)
    case Nil
    with step show ?thesis by simp
  next
    case (Cons y ys)
    with assms(2) have "acc_line (?A @ [strip l]) y = (?A @ [strip l]) @ [strip y]"
      by (simp add: acc_line_def)
    with step Cons have "accumulate_lines (before @ l # after)
        = (?A @ [strip l]) @ foldl acc_line [strip y] ys"
      using foldl_acc_line_append [of "[strip y]" "?A @ [strip l]" ys] by simp
    then show ?thesis by simp
  qed
qed

lemma parse_info_IndexError:
  "line \<in> set (accumulate_lines (splitlines out)) \<Longrightarrow> line \<noteq> [] \<Longrightarrow> \<not> has_delimiter line \<Longrightarrow>
   parse_info out = Inl IndexError"
  by (simp add: parse_info_def parse_pairs_def kv_pairs_IndexError)

lemma package_info_rc0:
  "respond E log (info_cmd P name) = (0, out, err) \<Longrightarrow>
   package_info E P name log =
     (case parse_info out of Inl e \<Rightarrow> (Inl e, log @ [info_cmd P name])
      | Inr d \<Rightarrow> (Inr (Some d), log @ [info_cmd P name]))"
  by (simp add: package_info_def run_command_def)

lemma check_package_info_raises:
  "package_info E P name log = (Inl e, log1) \<Longrightarrow> check_package E P su b name log = (Inl e, log1)"
  by (cases b) (simp add: check_package_def)

lemma check_package_installed_raises:
  "package_info E P name log = (Inr (Some info), log1) \<Longrightarrow>
   package_installed_version E P name log1 = (Inl e, log2) \<Longrightarrow>
   check_package E P su b name log = (Inl e, log2)"
  by (cases b) (simp add: check_package_def)

lemma check_loop_raises:
  "check_loop E P su pre b log = (Inr b', log') \<Longrightarrow>
   check_package E P su b' name log' = (Inl e, log'') \<Longrightarrow>
   check_loop E P su (pre @ name # post) b log = (Inl e, log'')"
proof (induction pre arbitrary: b log)
  case Nil
  then show ?case by simp
next
  case (Cons p pre)
  obtain r l1 where cp: "check_package E P su b p log = (r, l1)"
    by (cases "check_package E P su b p log") auto
  with Cons.prems(1) obtain b1 where r: "r = Inr b1" by (cases r) auto
  with cp Cons.prems(1) have "check_loop E P su pre b1 l1 = (Inr b', log')" by simp
  from Cons.IH [OF this Cons.prems(2)] cp r show ?case by simp
qed

lemma run_raises:
  "check_packages E P M (requested_names M) log = (Inl e, log1) \<Longrightarrow> run E P M log = (Raised e, log1)"
  by (simp add: run_def Let_def)

text \<open>
  Claim C10 says that parsing raises IndexError whenever the output of the remote query
  holds a non-blank line with no colon surrounded by whitespace. A line that starts with
  whitespace is a continuation and is appended to the record before it: on the wrapped
  example the third line, \<^verbatim>\<open>sudo\<close> after blanks, is not blank and holds no colon,
  and \<^verbatim>\<open>package_info\<close> returns a mapping (its result is not an \<open>Inl\<close>). Nor does
  the pattern ask for whitespace after the colon: \<^verbatim>\<open>Name :foo\<close> parses.
\<close>

theorem C10_any_line_without_colon_counterexample:
  "respond example_env_wrapped [] (info_cmd example_packer ''cower'') = (0, example_wrapped, []) \<and>
   splitlines example_wrapped = [''Name : cower'', ''Optional Deps : git'', ''                sudo''] \<and>
   strip ''                sudo'' = ''sudo'' \<and>
   CHR '':'' \<notin> set ''                sudo'' \<and>
   parse_pairs example_wrapped = Inr [(''name'', ''cower''), (''optional_deps'', ''git sudo'')] \<and>
   \<not> isl (fst (package_info example_env_wrapped example_packer ''cower'' [])) \<and>
   parse_pairs ''Name :foo'' = Inr [(''name'', ''foo'')]"
  by code_simp

text \<open>
  Claim C10, amended. The two query operations are not total over the output of the
  tools. When the remote metadata query exits with 0 and one of the record lines that the
  parser splits (an entry of \<^verbatim>\<open>line_acc\<close>: the output lines with every line that starts
  with whitespace appended to the one before) is not empty and holds no colon that follows
  whitespace, \<^verbatim>\<open>package_info\<close> raises IndexError and returns no mapping; in particular so
  does every non-empty line of the output that does not start with whitespace, is not
  followed by a continuation line and holds no such colon. When the installed-version
  query exits with 0 and prints nothing, \<^verbatim>\<open>package_installed_version\<close> raises IndexError
  and returns no optional string. Nothing catches either exception: the round of the
  classification loop that made the query raises it, so does the loop at whatever position
  the name stands, and \<^verbatim>\<open>run\<close> ends with it, in dry-run mode or not.
\<close>

theorem C10_record_line_without_delimiter_raises:
  "(respond E log (info_cmd P name) = (0, out, err) \<and>
      line \<in> set (accumulate_lines (splitlines out)) \<and> line \<noteq> [] \<and> \<not> has_delimiter line
      \<longrightarrow> package_info E P name log = (Inl IndexError, log @ [info_cmd P name])) \<and>
   (respond E log (info_cmd P name) = (0, out, err) \<and>
      splitlines out = before @ l # after \<and> l \<noteq> [] \<and> \<not> starts_with_space l \<and>
      (after = [] \<or> \<not> starts_with_space (hd after)) \<and> \<not> has_delimiter l
      \<longrightarrow> package_info E P name log = (Inl IndexError, log @ [info_cmd P name])) \<and>
   (respond E log (installed_cmd P name) = (0, [], err)
      \<longrightarrow> package_installed_version E P name log = (Inl IndexError, log @ [installed_cmd P name])) \<and>
   (package_info E P name log = (Inl e, log1)
      \<longrightarrow> check_package E P su b name log = (Inl e, log1)) \<and>
   (package_info E P name log = (Inr (Some info), log1) \<and>
    package_installed_version E P name log1 = (Inl e, log2)
      \<longrightarrow> check_package E P su b name log = (Inl e, log2)) \<and>
   (check_loop E P su pre b0 log0 = (Inr b, log) \<and> check_package E P su b name log = (Inl e, log3)
      \<longrightarrow> check_loop E P su (pre @ name # post) b0 log0 = (Inl e, log3)) \<and>
   (check_packages E P M (requested_names M) log0 = (Inl e, log3)
      \<longrightarrow> run E P M log0 = (Raised e, log3))"
proof -
  have p1: "respond E log (info_cmd P name) = (0, out, err) \<and>
      line \<in> set (accumulate_lines (splitlines out)) \<and> line \<noteq> [] \<and> \<not> has_delimiter line
      \<longrightarrow> package_info E P name log = (Inl IndexError, log @ [info_cmd P name])"
  proof
    assume a: "respond E log (info_cmd P name) = (0, out, err) \<and>
      line \<in> set (accumulate_lines (splitlines out)) \<and> line \<noteq> [] \<and> \<not> has_delimiter line"
    then have "parse_info out = Inl IndexError"
      by (intro parse_info_IndexError [of line]) auto
    with a show "package_info E P name log = (Inl IndexError, log @ [info_cmd P name])"
      by (simp add: package_info_rc0)
  qed
  have p2: "respond E log (info_cmd P name) = (0, out, err) \<and>
      splitlines out = before @ l # after \<and> l \<noteq> [] \<and> \<not> starts_with_space l \<and>
      (after = [] \<or> \<not> starts_with_space (hd after)) \<and> \<not> has_delimiter l
      \<longrightarrow> package_info E P name log = (Inl IndexError, log @ [info_cmd P name])"
  proof
    assume a: "respond E log (info_cmd P name) = (0, out, err) \<and>
      splitlines out = before @ l # after \<and> l \<noteq> [] \<and> \<not> starts_with_space l \<and>
      (after = [] \<or> \<not> starts_with_space (hd after)) \<and> \<not> has_delimiter l"
    then have "strip l \<in> set (accumulate_lines (splitlines out))"
      using accumulate_lines_key_line [of l after before] by simp
    moreover from a have "strip l \<noteq> []" "\<not> has_delimiter (strip l)"
      using strip_key_line [of l] by auto
    ultimately have "parse_info out = Inl IndexError"
      by (intro parse_info_IndexError [of "strip l"]) auto
    with a show "package_info E P name log = (Inl IndexError, log @ [info_cmd P name])"
      by (simp add: package_info_rc0)
  qed
  have p3: "respond E log (installed_cmd P name) = (0, [], err)
      \<longrightarrow> package_installed_version E P name log = (Inl IndexError, log @ [installed_cmd P name])"
    by (simp add: package_installed_version_def run_command_def splitlines_def first_def)
  have p4: "package_info E P name log = (Inl e, log1)
      \<longrightarrow> check_package E P su b name log = (Inl e, log1)"
    by (simp add: check_package_info_raises)
  have p5: "package_info E P name log = (Inr (Some info), log1) \<and>
    package_installed_version E P name log1 = (Inl e, log2)
      \<longrightarrow> check_package E P su b name log = (Inl e, log2)"
    using check_package_installed_raises [of E P name log info log1 e log2 su b] by simp
  have p6: "check_loop E P su pre b0 log0 = (Inr b, log) \<and> check_package E P su b name log = (Inl e, log3)
      \<longrightarrow> check_loop E P su (pre @ name # post) b0 log0 = (Inl e, log3)"
    using check_loop_raises [of E P su pre b0 log0 b log name e log3 post] by simp
  have p7: "check_packages E P M (requested_names M) log0 = (Inl e, log3)
      \<longrightarrow> run E P M log0 = (Raised e, log3)"
    by (simp add: run_raises)
  show ?thesis
    by (intro conjI) (fact p1, fact p2, fact p3, fact p4, fact p5, fact p6, fact p7)
qed

theorem C10_record_line_without_delimiter_raises_witness:
  "respond example_env [] (info_cmd example_packer ''broken'') = (0, ''Name: broken'', []) \<and>
   splitlines ''Name: broken'' = [''Name: broken''] \<and>
   accumulate_lines (splitlines ''Name: broken'') = [''Name: broken''] \<and>
   package_info example_env example_packer ''broken'' [] =
     (Inl IndexError, [info_cmd example_packer ''broken'']) \<and>
   run example_env example_packer (example_params [''foo'', ''broken'', ''cower''] ''present'' True) [] =
     (Raised IndexError,
      [info_cmd example_packer ''foo'', installed_cmd example_packer ''foo'',
       info_cmd example_packer ''broken'']) \<and>
   respond example_env_ghost [info_cmd example_packer ''ghost''] (installed_cmd example_packer ''ghost'')
     = (0, [], []) \<and>
   package_installed_version example_env_ghost example_packer ''ghost'' [info_cmd example_packer ''ghost''] =
     (Inl IndexError, [info_cmd example_packer ''ghost'', installed_cmd example_packer ''ghost'']) \<and>
   run example_env_ghost example_packer (example_params [''ghost''] ''present'' False) [] =
     (Raised IndexError, [info_cmd example_packer ''ghost'', installed_cmd example_packer ''ghost''])"
proof -
  let ?M = "example_params [''foo'', ''broken'', ''cower''] ''present'' True"
  let ?G = "example_params [''ghost''] ''present'' False"
  let ?ib = "info_cmd example_packer ''broken''"
  let ?ig = "info_cmd example_packer ''ghost''"
  let ?vg = "installed_cmd example_packer ''ghost''"
  let ?lf = "[info_cmd example_packer ''foo'', installed_cmd example_packer ''foo'']"
  have r1: "respond example_env [] ?ib = (0, ''Name: broken'', [])" by code_simp
  have r1': "respond example_env ?lf ?ib = (0, ''Name: broken'', [])" by code_simp
  have r2: "respond example_env_ghost [?ig] ?vg = (0, [], [])" by code_simp
  have sl: "splitlines ''Name: broken'' = [''Name: broken'']" by code_simp
  have al: "accumulate_lines (splitlines ''Name: broken'') = [''Name: broken'']" by code_simp
  have nd: "\<not> has_delimiter ''Name: broken''" by code_simp
  have ns: "\<not> starts_with_space ''Name: broken''" by code_simp
  have rm: "requested_names ?M = [''foo''] @ ''broken'' # [''cower'']" by code_simp
  have rg: "requested_names ?G = [] @ ''ghost'' # []" by code_simp
  have pre: "check_loop example_env example_packer (should_update ?M) [''foo''] ([], [], []) []
      = (Inr ([''foo''], [], []), ?lf)" by code_simp
  have "(case package_info example_env_ghost example_packer ''ghost'' [] of
           (Inr (Some info), l) \<Rightarrow> l = [?ig] | _ \<Rightarrow> False)"
    by code_simp
  then obtain info where
    pg: "package_info example_env_ghost example_packer ''ghost'' [] = (Inr (Some info), [?ig])"
    by (auto split: prod.splits sum.splits option.splits)
  note A = C10_record_line_without_delimiter_raises [where E = example_env and P = example_packer
      and name = "''broken''" and out = "''Name: broken''" and err = "[]"
      and line = "''Name: broken''" and before = "[]" and l = "''Name: broken''" and after = "[]"
      and e = IndexError and M = ?M and su = "should_update ?M"
      and pre = "[''foo'']" and post = "[''cower'']" and ?b0.0 = "([], [], [])" and ?log0.0 = "[]"]
  from A [where log = "[]"] r1 sl al nd ns
  have a1: "package_info example_env example_packer ''broken'' [] = (Inl IndexError, [?ib])"
    by simp
  from A [where log = ?lf and ?log1.0 = "?lf @ [?ib]" and ?log3.0 = "?lf @ [?ib]" and b = "([''foo''], [], [])"]
    r1' sl al nd ns pre rm
  have a2: "run example_env example_packer ?M [] = (Raised IndexError, ?lf @ [?ib])"
    by (simp add: check_packages_def)
  note B = C10_record_line_without_delimiter_raises [where E = example_env_ghost and P = example_packer
      and name = "''ghost''" and err = "[]" and e = IndexError and M = ?G and su = "should_update ?G"
      and pre = "[]" and post = "[]" and ?b0.0 = "([], [], [])" and ?log0.0 = "[]" and b = "([], [], [])"]
  from B [where log = "[?ig]"] r2
  have b1: "package_installed_version example_env_ghost example_packer ''ghost'' [?ig]
      = (Inl IndexError, [?ig, ?vg])"
    by simp
  from B [where log = "[]" and info = info and ?log1.0 = "[?ig]" and ?log2.0 = "[?ig, ?vg]"
      and ?log3.0 = "[?ig, ?vg]"] pg b1 rg
  have b2: "run example_env_ghost example_packer ?G [] = (Raised IndexError, [?ig, ?vg])"
    by (simp add: check_packages_def)
  from r1 sl al a1 a2 r2 b1 b2 show ?thesis by simp
qed

section \<open>Claims about the parser and the classifier\<close>

lemma check_package_installed:
  "package_info E P name log = (Inr (Some info), log1) \<Longrightarrow>
   package_installed_version E P name log1 = (Inr (Some v), log2) \<Longrightarrow>
   check_package E P (should_update M) (wc, ap, nf) name log = (Inr (wc, ap @ [name], nf), log2)"
  by (simp add: check_package_def should_update_def truthy_def)

text \<open>
  Claim C3 says that a key/value line whose value holds a colon between whitespace is
  split at the first delimiter. The pattern's first group is greedy, so the code splits
  at the last one (\<open>split_on_colons_value\<close>: the value it returns never holds a
  delimiter). On the line \<^verbatim>\<open>Description : Tool : a helper\<close> the key is
  \<^verbatim>\<open>description_:_tool\<close> and the value \<^verbatim>\<open>a helper\<close>, where the claim has the key
  \<^verbatim>\<open>description\<close> and the value \<^verbatim>\<open>Tool : a helper\<close>; the mapping that
  \<^verbatim>\<open>package_info\<close> returns has no key \<^verbatim>\<open>description\<close>.
\<close>

theorem C3_split_at_last_delimiter:
  "split_on_colons ''Description : Tool : a helper'' = Some (''Description : Tool'', ''a helper'') \<and>
   parse_pairs ''Description : Tool : a helper'' = Inr [(''description_:_tool'', ''a helper'')] \<and>
   (case fst (package_info example_env example_packer ''tool'' []) of
      Inr (Some info) \<Rightarrow> (info ''description'', info ''description_:_tool'')
    | _ \<Rightarrow> (None, None)) = (None, Some ''a helper'')"
  by code_simp

text \<open>
  Claim C1 says that with the desired state \<^verbatim>\<open>latest\<close> a name whose installed version
  differs from the remote version goes to \<^verbatim>\<open>needs_change\<close>. \<^verbatim>\<open>should_update\<close>
  returns \<^verbatim>\<open>None\<close> for every state, so the comparison of versions in
  \<^verbatim>\<open>check_packages\<close> is never reached (\<open>check_package_installed\<close>): on the example
  host, with state \<^verbatim>\<open>latest\<close>, \<^verbatim>\<open>cower\<close> installed in version 1.0 and remote
  version 2.0, the name is placed in \<^verbatim>\<open>already_present\<close>.
\<close>

theorem C1_outdated_package_already_present:
  "normalized_state (example_params [''cower''] ''latest'' False) = Some ''latest'' \<and>
   fst (package_installed_version example_env example_packer ''cower'' []) = Inr (Some ''1.0'') \<and>
   (case fst (package_info example_env example_packer ''cower'' []) of
      Inr (Some info) \<Rightarrow> info ''version'' | _ \<Rightarrow> None) = Some ''2.0'' \<and>
   fst (check_packages example_env example_packer (example_params [''cower''] ''latest'' False)
          [''cower''] []) = Inr ([], [''cower''], [])"
  by code_simp

lemma check_loop_commands:
  "\<exists>new. snd (check_loop E P su pkgs b log) = log @ new \<and>
     (\<forall>c \<in> set new. \<exists>m \<in> set pkgs. c = info_cmd P m \<or> c = installed_cmd P m)"
proof (induction pkgs arbitrary: b log)
  case Nil
  then show ?case by simp
next
  case (Cons name pkgs)
  obtain r log1 where cp: "check_package E P su b name log = (r, log1)"
    by (cases "check_package E P su b name log") auto
  have step: "\<exists>s. log1 = log @ s \<and> set s \<subseteq> {info_cmd P name, installed_cmd P name}"
    using check_package_log [of E P su b name log] cp by auto
  then obtain s where s: "log1 = log @ s" "set s \<subseteq> {info_cmd P name, installed_cmd P name}"
    by blast
  show ?case
  proof (cases r)
    case (Inl e)
    with cp s have "snd (check_loop E P su (name # pkgs) b log) = log @ s" by simp
    moreover from s(2) have "\<forall>c \<in> set s. \<exists>m \<in> set (name # pkgs). c = info_cmd P m \<or> c = installed_cmd P m"
      by auto
    ultimately show ?thesis by blast
  next
    case (Inr b1)
    from Cons.IH [of b1 log1] obtain new where
      new: "snd (check_loop E P su pkgs b1 log1) = log1 @ new"
           "\<forall>c \<in> set new. \<exists>m \<in> set pkgs. c = info_cmd P m \<or> c = installed_cmd P m"
      by blast
    with cp Inr s have "snd (check_loop E P su (name # pkgs) b log) = log @ (s @ new)"
      by simp
    moreover from new(2) s(2)
    have "\<forall>c \<in> set (s @ new). \<exists>m \<in> set (name # pkgs). c = info_cmd P m \<or> c = installed_cmd P m"
      by auto
    ultimately show ?thesis by blast
  qed
qed

text \<open>
  Claim C5. When classification returns, every occurrence of a requested name is in
  exactly one of the three buckets: as multisets, the buckets add up to the request. A
  name whose remote lookup fails is appended to \<^verbatim>\<open>not_found\<close> by the round of the loop
  that handles it, whatever the desired state (\<open>su\<close>) and whatever the installed-version
  query would answer, and that round runs the remote query and nothing else. Over the
  whole loop, a name whose remote lookup always fails is in neither of the other buckets,
  is in \<^verbatim>\<open>not_found\<close> as often as it was requested, and every command run is a remote
  query or the installed-version query of another name.
\<close>

theorem C5_each_name_in_one_bucket:
  "(check_packages E P M pkgs log = (Inr (wc, ap, nf), log')
      \<longrightarrow> mset wc + mset ap + mset nf = mset pkgs) \<and>
   (fst (respond E log (info_cmd P name)) \<noteq> 0
      \<longrightarrow> check_package E P su (wc0, ap0, nf0) name log =
            (Inr (wc0, ap0, nf0 @ [name]), log @ [info_cmd P name])) \<and>
   ((\<forall>h. fst (respond E h (info_cmd P n)) \<noteq> 0) \<and>
    check_packages E P M pkgs log = (Inr (wc, ap, nf), log')
      \<longrightarrow> n \<notin> set wc \<and> n \<notin> set ap \<and> count_list nf n = count_list pkgs n) \<and>
   ((\<forall>h. fst (respond E h (info_cmd P n)) \<noteq> 0)
      \<longrightarrow> (\<exists>new. snd (check_packages E P M pkgs log) = log @ new \<and>
             (\<forall>c \<in> set new. (\<exists>m \<in> set pkgs. c = info_cmd P m) \<or>
                              (\<exists>m \<in> set pkgs. m \<noteq> n \<and> c = installed_cmd P m))))"
proof -
  have p1: "check_packages E P M pkgs log = (Inr (wc, ap, nf), log')
      \<longrightarrow> mset wc + mset ap + mset nf = mset pkgs"
    using check_loop_mset [of E P "should_update M" pkgs "[]" "[]" "[]" log wc ap nf log']
    by (simp add: check_packages_def)
  have p2: "fst (respond E log (info_cmd P name)) \<noteq> 0
      \<longrightarrow> check_package E P su (wc0, ap0, nf0) name log =
            (Inr (wc0, ap0, nf0 @ [name]), log @ [info_cmd P name])"
    by (simp add: check_package_not_found)
  have p3: "(\<forall>h. fst (respond E h (info_cmd P n)) \<noteq> 0) \<and>
    check_packages E P M pkgs log = (Inr (wc, ap, nf), log')
      \<longrightarrow> n \<notin> set wc \<and> n \<notin> set ap \<and> count_list nf n = count_list pkgs n"
  proof
    assume a: "(\<forall>h. fst (respond E h (info_cmd P n)) \<noteq> 0) \<and>
      check_packages E P M pkgs log = (Inr (wc, ap, nf), log')"
    then have "count_list wc n = 0 \<and> count_list ap n = 0 \<and> count_list nf n = count_list pkgs n"
      using check_loop_not_found [of E P n "should_update M" pkgs "[]" "[]" "[]" log wc ap nf log']
      by (simp add: check_packages_def)
    then show "n \<notin> set wc \<and> n \<notin> set ap \<and> count_list nf n = count_list pkgs n"
      by (simp add: count_list_0_iff)
  qed
  have p4: "(\<forall>h. fst (respond E h (info_cmd P n)) \<noteq> 0)
      \<longrightarrow> (\<exists>new. snd (check_packages E P M pkgs log) = log @ new \<and>
             (\<forall>c \<in> set new. (\<exists>m \<in> set pkgs. c = info_cmd P m) \<or>
                              (\<exists>m \<in> set pkgs. m \<noteq> n \<and> c = installed_cmd P m)))"
  proof
    assume nf_n: "\<forall>h. fst (respond E h (info_cmd P n)) \<noteq> 0"
    show "\<exists>new. snd (check_packages E P M pkgs log) = log @ new \<and>
             (\<forall>c \<in> set new. (\<exists>m \<in> set pkgs. c = info_cmd P m) \<or>
                              (\<exists>m \<in> set pkgs. m \<noteq> n \<and> c = installed_cmd P m))"
      unfolding check_packages_def by (rule check_loop_log [OF nf_n])
  qed
  show ?thesis
    by (intro conjI) (fact p1, fact p2, fact p3, fact p4)
qed

lemma example_aura: "fst (example_respond h (info_cmd example_packer ''aura'')) \<noteq> 0"
  by code_simp

theorem C5_each_name_in_one_bucket_witness:
  "check_packages example_env example_packer (example_params [] ''latest'' False)
      [''cower'', ''aura'', ''foo'', ''aura''] []
    = (Inr ([''foo''], [''cower''], [''aura'', ''aura'']),
       [info_cmd example_packer ''cower'', installed_cmd example_packer ''cower'',
        info_cmd example_packer ''aura'',
        info_cmd example_packer ''foo'', installed_cmd example_packer ''foo'',
        info_cmd example_packer ''aura'']) \<and>
   mset [''foo''] + mset [''cower''] + mset [''aura'', ''aura'']
     = mset [''cower'', ''aura'', ''foo'', ''aura''] \<and>
   check_package example_env example_packer (Some True) ([], [], []) ''aura'' []
     = (Inr ([], [], [''aura'']), [info_cmd example_packer ''aura'']) \<and>
   count_list [''aura'', ''aura''] ''aura'' = count_list [''cower'', ''aura'', ''foo'', ''aura''] ''aura''"
proof -
  have ev: "check_packages example_env example_packer (example_params [] ''latest'' False)
      [''cower'', ''aura'', ''foo'', ''aura''] []
    = (Inr ([''foo''], [''cower''], [''aura'', ''aura'']),
       [info_cmd example_packer ''cower'', installed_cmd example_packer ''cower'',
        info_cmd example_packer ''aura'',
        info_cmd example_packer ''foo'', installed_cmd example_packer ''foo'',
        info_cmd example_packer ''aura''])"
    by code_simp
  have nf: "\<forall>h. fst (respond example_env h (info_cmd example_packer ''aura'')) \<noteq> 0"
    using example_aura by (simp add: example_env_def)
  note inst = C5_each_name_in_one_bucket [where E = example_env and P = example_packer
      and M = "example_params [] ''latest'' False" and pkgs = "[''cower'', ''aura'', ''foo'', ''aura'']"
      and log = "[]" and wc = "[''foo'']" and ap = "[''cower'']" and nf = "[''aura'', ''aura'']"
      and log' = "[info_cmd example_packer ''cower'', installed_cmd example_packer ''cower'',
        info_cmd example_packer ''aura'',
        info_cmd example_packer ''foo'', installed_cmd example_packer ''foo'',
        info_cmd example_packer ''aura'']"
      and name = "''aura''" and n = "''aura''" and su = "Some True"
      and ?wc0.0 = "[]" and ?ap0.0 = "[]" and ?nf0.0 = "[]"]
  from inst ev nf show ?thesis by simp
qed

section \<open>Claims about the plan reporter\<close>

text \<open>
  Claim C6. In dry-run mode every command that \<^verbatim>\<open>run\<close> executes is the remote query
  or the installed-version query of a requested name, so no install and no upgrade command
  is run; when classification returns, the run ends with \<^verbatim>\<open>exit_json\<close> and
  \<^verbatim>\<open>changed\<close> is true exactly when \<^verbatim>\<open>needs_change\<close> is not empty; when
  classification raises, so does the run.
\<close>

theorem C6_dry_run_only_queries:
  "check_mode M \<longrightarrow>
     (\<exists>new. snd (run E P M log) = log @ new \<and>
        (\<forall>c \<in> set new. \<exists>n \<in> set (requested_names M). c = info_cmd P n \<or> c = installed_cmd P n)) \<and>
     (\<forall>wu ap nf log1. check_packages E P M (requested_names M) log = (Inr (wu, ap, nf), log1)
        \<longrightarrow> (\<exists>msg. run E P M log = (ExitJson (wu \<noteq> []) msg, log1))) \<and>
     (\<forall>e log1. check_packages E P M (requested_names M) log = (Inl e, log1)
        \<longrightarrow> run E P M log = (Raised e, log1))"
proof
  assume cm: "check_mode M"
  have snd_eq: "snd (run E P M log) = snd (check_packages E P M (requested_names M) log)"
    by (simp add: run_check_mode [OF cm] split: prod.splits sum.splits)
  have "\<exists>new. snd (check_packages E P M (requested_names M) log) = log @ new \<and>
        (\<forall>c \<in> set new. \<exists>n \<in> set (requested_names M). c = info_cmd P n \<or> c = installed_cmd P n)"
    unfolding check_packages_def by (rule check_loop_commands)
  with snd_eq have a: "\<exists>new. snd (run E P M log) = log @ new \<and>
        (\<forall>c \<in> set new. \<exists>n \<in> set (requested_names M). c = info_cmd P n \<or> c = installed_cmd P n)"
    by simp
  have b: "\<forall>wu ap nf log1. check_packages E P M (requested_names M) log = (Inr (wu, ap, nf), log1)
        \<longrightarrow> (\<exists>msg. run E P M log = (ExitJson (wu \<noteq> []) msg, log1))"
    by (simp add: run_check_mode [OF cm])
  have c: "\<forall>e log1. check_packages E P M (requested_names M) log = (Inl e, log1)
        \<longrightarrow> run E P M log = (Raised e, log1)"
    by (simp add: run_check_mode [OF cm])
  from a b c show "(\<exists>new. snd (run E P M log) = log @ new \<and>
        (\<forall>c \<in> set new. \<exists>n \<in> set (requested_names M). c = info_cmd P n \<or> c = installed_cmd P n)) \<and>
     (\<forall>wu ap nf log1. check_packages E P M (requested_names M) log = (Inr (wu, ap, nf), log1)
        \<longrightarrow> (\<exists>msg. run E P M log = (ExitJson (wu \<noteq> []) msg, log1))) \<and>
     (\<forall>e log1. check_packages E P M (requested_names M) log = (Inl e, log1)
        \<longrightarrow> run E P M log = (Raised e, log1))"
    by (intro conjI)
qed

theorem C6_dry_run_only_queries_witness:
  "check_mode (example_params [''foo'', ''cower''] ''present'' True) \<and>
   check_packages example_env example_packer (example_params [''foo'', ''cower''] ''present'' True)
       [''foo'', ''cower''] []
     = (Inr ([''foo''], [''cower''], []),
        [info_cmd example_packer ''foo'', installed_cmd example_packer ''foo'',
         info_cmd example_packer ''cower'', installed_cmd example_packer ''cower'']) \<and>
   run example_env example_packer (example_params [''foo'', ''cower''] ''present'' True) []
     = (ExitJson True ''would update foo; cower already present'',
        [info_cmd example_packer ''foo'', installed_cmd example_packer ''foo'',
         info_cmd example_packer ''cower'', installed_cmd example_packer ''cower''])"
proof -
  let ?M = "example_params [''foo'', ''cower''] ''present'' True"
  let ?log = "[info_cmd example_packer ''foo'', installed_cmd example_packer ''foo'',
         info_cmd example_packer ''cower'', installed_cmd example_packer ''cower'']"
  have cm: "check_mode ?M" by code_simp
  have rn: "requested_names ?M = [''foo'', ''cower'']" by code_simp
  have ev: "check_packages example_env example_packer ?M [''foo'', ''cower''] []
     = (Inr ([''foo''], [''cower''], []), ?log)"
    by code_simp
  from C6_dry_run_only_queries [of ?M example_env example_packer "[]"] cm rn ev
  obtain msg where m: "run example_env example_packer ?M [] = (ExitJson ([''foo''] \<noteq> []) msg, ?log)"
    by auto
  have "fst (run example_env example_packer ?M []) = ExitJson True ''would update foo; cower already present''"
    by code_simp
  with m have "run example_env example_packer ?M [] = (ExitJson True ''would update foo; cower already present'', ?log)"
    by simp
  with cm ev show ?thesis by simp
qed

text \<open>
  Claim C2 says that in dry-run mode a non-empty \<^verbatim>\<open>not_found\<close> bucket makes the
  verdict fatal. \<^verbatim>\<open>run\<close> tests \<^verbatim>\<open>check_mode\<close> before \<^verbatim>\<open>failed\<close>: on the example
  host the dry run for \<^verbatim>\<open>aura\<close>, which the AUR does not have, ends with
  \<^verbatim>\<open>exit_json\<close>, \<^verbatim>\<open>changed\<close> false and the clause as the last part of the message.
\<close>

theorem C2_dry_run_not_found_counterexample:
  "check_mode (example_params [''aura''] ''present'' True) \<and>
   fst (check_packages example_env example_packer (example_params [''aura''] ''present'' True)
          [''aura''] []) = Inr ([], [], [''aura'']) \<and>
   fst (run example_env example_packer (example_params [''aura''] ''present'' True) [])
     = ExitJson False ''all packages already present; could not find aura'' \<and>
   fst (run example_env example_packer (example_params [''aura''] ''present'' True) [])
     \<noteq> FailJson (Some ''could not find aura'')"
  by code_simp

text \<open>
  Claim C2, amended. When classification returns with a non-empty \<^verbatim>\<open>not_found\<close>
  bucket, a dry run ends with \<^verbatim>\<open>exit_json\<close>: \<^verbatim>\<open>changed\<close> is true exactly when
  \<^verbatim>\<open>needs_change\<close> is not empty, and the message is the clauses joined by semicolons,
  the last of them \<^verbatim>\<open>could not find {names}\<close>. Outside dry-run mode the run is fatal
  with that clause as the error.
\<close>

theorem C2_not_found_fatal_outside_dry_run:
  "check_packages E P M (requested_names M) log = (Inr (wu, ap, nf), log1) \<and> nf \<noteq> [] \<longrightarrow>
     (check_mode M \<longrightarrow>
        run E P M log =
          (ExitJson (wu \<noteq> [])
             (join ''; '' (not_none [Some (would_update_msg (normalized_state M) wu),
                                     already_present_msg (normalized_state M) ap,
                                     Some (''could not find '' @ join '', '' nf)])), log1)) \<and>
     (\<not> check_mode M \<longrightarrow>
        run E P M log = (FailJson (Some (''could not find '' @ join '', '' nf)), log1))"
proof (intro impI conjI)
  assume a: "check_packages E P M (requested_names M) log = (Inr (wu, ap, nf), log1) \<and> nf \<noteq> []"
  then have nfm: "not_found_msg nf = Some (''could not find '' @ join '', '' nf)"
    by (cases nf) (simp_all add: not_found_msg_def)
  {
    assume "check_mode M"
    with a nfm show "run E P M log =
          (ExitJson (wu \<noteq> [])
             (join ''; '' (not_none [Some (would_update_msg (normalized_state M) wu),
                                     already_present_msg (normalized_state M) ap,
                                     Some (''could not find '' @ join '', '' nf)])), log1)"
      by (simp add: run_check_mode)
  }
  {
    assume "\<not> check_mode M"
    with a show "run E P M log = (FailJson (Some (''could not find '' @ join '', '' nf)), log1)"
      by (simp add: run_not_found_exec)
  }
qed

theorem C2_not_found_fatal_outside_dry_run_witness:
  "check_packages example_env example_packer (example_params [''aura''] ''present'' True) [''aura''] []
     = (Inr ([], [], [''aura'']), [info_cmd example_packer ''aura'']) \<and>
   run example_env example_packer (example_params [''aura''] ''present'' True) []
     = (ExitJson False ''all packages already present; could not find aura'',
        [info_cmd example_packer ''aura'']) \<and>
   check_packages example_env example_packer (example_params [''aura''] ''present'' False) [''aura''] []
     = (Inr ([], [], [''aura'']), [info_cmd example_packer ''aura'']) \<and>
   run example_env example_packer (example_params [''aura''] ''present'' False) []
     = (FailJson (Some ''could not find aura''), [info_cmd example_packer ''aura''])"
proof -
  let ?D = "example_params [''aura''] ''present'' True"
  let ?X = "example_params [''aura''] ''present'' False"
  have rd: "requested_names ?D = [''aura'']" and rx: "requested_names ?X = [''aura'']"
    by code_simp+
  have cd: "check_mode ?D" and cx: "\<not> check_mode ?X" by code_simp+
  have evd: "check_packages example_env example_packer ?D [''aura''] []
     = (Inr ([], [], [''aura'']), [info_cmd example_packer ''aura''])"
    by code_simp
  have evx: "check_packages example_env example_packer ?X [''aura''] []
     = (Inr ([], [], [''aura'']), [info_cmd example_packer ''aura''])"
    by code_simp
  have msg: "join ''; '' (not_none [Some (would_update_msg (normalized_state ?D) []),
                                     already_present_msg (normalized_state ?D) [],
                                     Some (''could not find '' @ join '', '' [''aura''])])
       = ''all packages already present; could not find aura''"
    by code_simp
  from C2_not_found_fatal_outside_dry_run [of example_env example_packer ?D "[]" "[]" "[]" "[''aura'']"
      "[info_cmd example_packer ''aura'']"] rd cd evd msg
  have d: "run example_env example_packer ?D []
     = (ExitJson False ''all packages already present; could not find aura'',
        [info_cmd example_packer ''aura''])"
    by simp
  from C2_not_found_fatal_outside_dry_run [of example_env example_packer ?X "[]" "[]" "[]" "[''aura'']"
      "[info_cmd example_packer ''aura'']"] rx cx evx
  have x: "run example_env example_packer ?X []
     = (FailJson (Some ''could not find aura''), [info_cmd example_packer ''aura''])"
    by simp
  from d x evd evx show ?thesis by simp
qed

section \<open>Claims about identity, dispatch and the executor\<close>

text \<open>
  Claim C4 says that \<^verbatim>\<open>SUDO_USER\<close> is applied whenever the first three sources
  resolved to the superuser or to nothing, in particular when the session login name is
  the superuser. \<^verbatim>\<open>login_name\<close> consults the other sources only in the handler of the
  OSError of \<^verbatim>\<open>os.getlogin()\<close>: on the example host the session login name is
  \<^verbatim>\<open>root\<close>, \<^verbatim>\<open>SUDO_USER\<close> is \<^verbatim>\<open>alice\<close>, and the resolved identity is
  \<^verbatim>\<open>root\<close>.
\<close>

theorem C4_root_session_keeps_root_counterexample:
  "getlogin example_env = Some ''root'' \<and>
   environ example_env ''SUDO_USER'' = Some ''alice'' \<and>
   login_name example_env [] = (Inr (Some ''root''), []) \<and>
   fst (login_name example_env []) \<noteq> Inr (Some ''alice'')"
  by code_simp

text \<open>
  Claim C4, amended. When the session login name is available it is the resolved
  identity, whatever it is and whatever \<^verbatim>\<open>SUDO_USER\<close> holds. Only when that lookup
  fails are the \<^verbatim>\<open>logname\<close> query and then \<^verbatim>\<open>LOGNAME\<close> tried, in this order; when
  these two resolved to the superuser or to nothing, the identity is \<^verbatim>\<open>SUDO_USER\<close> if
  it is set and what they resolved to if it is not; otherwise it is what they resolved to.
\<close>

theorem C4_sudo_user_only_after_getlogin_fails:
  "(getlogin E = Some n \<longrightarrow> login_name E log = (Inr (Some n), log)) \<and>
   (getlogin E = None \<and> logname_query E log = (Inr l1, log') \<and>
    l2 = (case l1 of None \<Rightarrow> environ E ''LOGNAME'' | Some x \<Rightarrow> Some x) \<longrightarrow>
      ((l2 = None \<or> l2 = Some ''root'') \<and> environ E ''SUDO_USER'' = Some u
         \<longrightarrow> login_name E log = (Inr (Some u), log')) \<and>
      ((l2 = None \<or> l2 = Some ''root'') \<and> environ E ''SUDO_USER'' = None
         \<longrightarrow> login_name E log = (Inr l2, log')) \<and>
      (l2 \<noteq> None \<and> l2 \<noteq> Some ''root'' \<longrightarrow> login_name E log = (Inr l2, log')))"
proof (intro conjI impI)
  assume "getlogin E = Some n"
  then show "login_name E log = (Inr (Some n), log)" by (rule login_name_getlogin)
next
  assume a: "getlogin E = None \<and> logname_query E log = (Inr l1, log') \<and>
    l2 = (case l1 of None \<Rightarrow> environ E ''LOGNAME'' | Some x \<Rightarrow> Some x)"
  then have fb: "(l2 = None \<or> l2 = Some ''root'' \<longrightarrow>
           (\<forall>u. environ E ''SUDO_USER'' = Some u \<longrightarrow> login_name E log = (Inr (Some u), log')) \<and>
           (environ E ''SUDO_USER'' = None \<longrightarrow> login_name E log = (Inr l2, log'))) \<and>
         (l2 \<noteq> None \<and> l2 \<noteq> Some ''root'' \<longrightarrow> login_name E log = (Inr l2, log'))"
    by (intro login_name_fallback [of E log l1 log' l2]) simp_all
  {
    assume "(l2 = None \<or> l2 = Some ''root'') \<and> environ E ''SUDO_USER'' = Some u"
    with fb show "login_name E log = (Inr (Some u), log')" by simp
  }
  {
    assume "(l2 = None \<or> l2 = Some ''root'') \<and> environ E ''SUDO_USER'' = None"
    with fb show "login_name E log = (Inr l2, log')" by simp
  }
  {
    assume "l2 \<noteq> None \<and> l2 \<noteq> Some ''root''"
    with fb show "login_name E log = (Inr l2, log')" by simp
  }
qed

theorem C4_sudo_user_only_after_getlogin_fails_witness:
  "getlogin example_env = Some ''root'' \<and>
   login_name example_env [] = (Inr (Some ''root''), []) \<and>
   getlogin example_env_nologin = None \<and>
   logname_query example_env_nologin [] = (Inr None, []) \<and>
   environ example_env_nologin ''LOGNAME'' = None \<and>
   environ example_env_nologin ''SUDO_USER'' = Some ''alice'' \<and>
   login_name example_env_nologin [] = (Inr (Some ''alice''), [])"
proof -
  have g1: "getlogin example_env = Some ''root''" by code_simp
  have g2: "getlogin example_env_nologin = None" by code_simp
  have q: "logname_query example_env_nologin [] = (Inr None, [])" by code_simp
  have e1: "environ example_env_nologin ''LOGNAME'' = None" by code_simp
  have e2: "environ example_env_nologin ''SUDO_USER'' = Some ''alice''" by code_simp
  from C4_sudo_user_only_after_getlogin_fails [where E = example_env and n = "''root''" and log = "[]"] g1
  have a: "login_name example_env [] = (Inr (Some ''root''), [])" by simp
  from C4_sudo_user_only_after_getlogin_fails [where E = example_env_nologin and log = "[]"
      and ?l1.0 = None and log' = "[]" and ?l2.0 = None and u = "''alice''"] g2 q e1 e2
  have b: "login_name example_env_nologin [] = (Inr (Some ''alice''), [])" by simp
  from g1 g2 q e1 e2 a b show ?thesis by simp
qed

text \<open>
  Claim C9. When the requested state is \<^verbatim>\<open>absent\<close> or \<^verbatim>\<open>removed\<close>, the action
  plugin executes one module, \<^verbatim>\<open>pacman\<close>, with the arguments of the task as they are,
  and returns its result merged into the base result: the module of this system, and with
  it classification, is not executed. For every other state, and when no state is given,
  the one module executed is \<^verbatim>\<open>packer\<close>, with the same arguments.
\<close>

theorem C9_removal_goes_to_pacman:
  "(args ''state'' = Some ''absent'' \<or> args ''state'' = Some ''removed'' \<longrightarrow>
      action_run super_run execute_module args task_vars =
        (let tv = (case task_vars of None \<Rightarrow> Map.empty | Some t \<Rightarrow> t)
         in (super_run tv ++ execute_module ''pacman'' args tv, [(''pacman'', args)]))) \<and>
   (args ''state'' \<noteq> Some ''absent'' \<and> args ''state'' \<noteq> Some ''removed'' \<longrightarrow>
      action_run super_run execute_module args task_vars =
        (let tv = (case task_vars of None \<Rightarrow> Map.empty | Some t \<Rightarrow> t)
         in (super_run tv ++ execute_module ''packer'' args tv, [(''packer'', args)])))"
  by (simp add: action_run_cases Let_def)

theorem C9_removal_goes_to_pacman_witness:
  "snd (action_run (\<lambda>tv. Map.empty) (\<lambda>m a tv. [''module'' \<mapsto> m])
          [''name'' \<mapsto> ''cower,meat'', ''state'' \<mapsto> ''absent'']
          (None :: (string \<rightharpoonup> string) option))
     = [(''pacman'', [''name'' \<mapsto> ''cower,meat'', ''state'' \<mapsto> ''absent''])] \<and>
   fst (action_run (\<lambda>tv. Map.empty) (\<lambda>m a tv. [''module'' \<mapsto> m])
          [''name'' \<mapsto> ''cower,meat'', ''state'' \<mapsto> ''absent'']
          (None :: (string \<rightharpoonup> string) option)) ''module'' = Some ''pacman'' \<and>
   snd (action_run (\<lambda>tv. Map.empty) (\<lambda>m a tv. [''module'' \<mapsto> m])
          [''name'' \<mapsto> ''cower'', ''state'' \<mapsto> ''latest'']
          (None :: (string \<rightharpoonup> string) option))
     = [(''packer'', [''name'' \<mapsto> ''cower'', ''state'' \<mapsto> ''latest''])] \<and>
   fst (action_run (\<lambda>tv. Map.empty) (\<lambda>m a tv. [''module'' \<mapsto> m])
          [''name'' \<mapsto> ''cower'', ''state'' \<mapsto> ''latest'']
          (None :: (string \<rightharpoonup> string) option)) ''module'' = Some ''packer''"
proof -
  note a = C9_removal_goes_to_pacman [where args = "[''name'' \<mapsto> ''cower,meat'', ''state'' \<mapsto> ''absent'']"
      and super_run = "\<lambda>tv. Map.empty" and execute_module = "\<lambda>m a tv. [''module'' \<mapsto> m]"
      and task_vars = "None :: (string \<rightharpoonup> string) option"]
  note b = C9_removal_goes_to_pacman [where args = "[''name'' \<mapsto> ''cower'', ''state'' \<mapsto> ''latest'']"
      and super_run = "\<lambda>tv. Map.empty" and execute_module = "\<lambda>m a tv. [''module'' \<mapsto> m]"
      and task_vars = "None :: (string \<rightharpoonup> string) option"]
  from a b show ?thesis by simp
qed

text \<open>
  Claim C7. When bulk upgrade is requested and the command prefix could be built, the
  first command that \<^verbatim>\<open>install_packages\<close> runs after resolving the identity is the
  upgrade command, and every later command is the install of one of the first names of the
  list, in order. A non-zero exit of the upgrade is fatal at once, and the upgrade is the
  last command run. A zero exit with an empty list ends the run with \<^verbatim>\<open>changed\<close> true
  and the message \<^verbatim>\<open>upgraded AUR packages\<close>; outside dry-run mode \<^verbatim>\<open>run\<close> reaches
  this when classification found nothing to change and nothing missing.
\<close>

theorem C7_bulk_upgrade_first:
  assumes "truthy (should_upgrade M)"
    and "login_name E log = (Inr login, log1)"
    and "getpwuid_name E = Some user"
    and "base_command E P M (Some user \<noteq> login) login = Inr base"
    and "respond E log1 (upgrade_cmd base) = (rc, out, err)"
  shows "(\<exists>k \<le> length pkgs. snd (install_packages E P M pkgs log)
            = log1 @ upgrade_cmd base # map (install_cmd base) (take k pkgs)) \<and>
         (rc \<noteq> 0 \<longrightarrow> install_packages E P M pkgs log
            = (FailJson (Some (''failed to upgrade packages: '' @ err)), log1 @ [upgrade_cmd base])) \<and>
         (rc = 0 \<and> pkgs = [] \<longrightarrow> install_packages E P M pkgs log
            = (ExitJson True ''upgraded AUR packages'', log1 @ [upgrade_cmd base])) \<and>
         (\<not> check_mode M \<and> check_packages E P M (requested_names M) log0 = (Inr ([], ap, []), log)
            \<longrightarrow> run E P M log0 = install_packages E P M [] log)"
proof -
  note unf = install_packages_unfold [OF assms(2,3,4), of pkgs]
  have p2: "rc \<noteq> 0 \<longrightarrow> install_packages E P M pkgs log
            = (FailJson (Some (''failed to upgrade packages: '' @ err)), log1 @ [upgrade_cmd base])"
    using unf assms(1,5) by (simp add: run_command_def)
  have p3: "rc = 0 \<and> pkgs = [] \<longrightarrow> install_packages E P M pkgs log
            = (ExitJson True ''upgraded AUR packages'', log1 @ [upgrade_cmd base])"
    using assms(1,5) by (simp add: install_packages_unfold [OF assms(2,3,4)] run_command_def)
  have p1: "\<exists>k \<le> length pkgs. snd (install_packages E P M pkgs log)
            = log1 @ upgrade_cmd base # map (install_cmd base) (take k pkgs)"
  proof (cases "rc \<noteq> 0 \<or> pkgs = []")
    case True
    with p2 p3 have "snd (install_packages E P M pkgs log) = log1 @ [upgrade_cmd base]"
      by auto
    then show ?thesis by (intro exI [of _ 0]) simp
  next
    case False
    with unf assms(1,5) have "install_packages E P M pkgs log
        = install_loop E base (Some user \<noteq> login) login pkgs 0 (log1 @ [upgrade_cmd base])"
      by (simp add: run_command_def)
    then show ?thesis
      using install_loop_log [of pkgs E base "Some user \<noteq> login" login 0 "log1 @ [upgrade_cmd base]"]
      by auto
  qed
  have p4: "\<not> check_mode M \<and> check_packages E P M (requested_names M) log0 = (Inr ([], ap, []), log)
            \<longrightarrow> run E P M log0 = install_packages E P M [] log"
    using assms(1) by (simp add: run_def Let_def)
  show ?thesis by (intro conjI) (fact p1, fact p2, fact p3, fact p4)
qed


theorem C7_bulk_upgrade_first_witness:
  "truthy (should_upgrade ((example_params [] ''present'' False)\<lparr>param_upgrade := Some True\<rparr>)) \<and>
   login_name example_env [] = (Inr (Some ''root''), []) \<and>
   getpwuid_name example_env = Some ''root'' \<and>
   respond example_env [] (upgrade_cmd example_base) = (0, [], []) \<and>
   install_packages example_env example_packer
       ((example_params [] ''present'' False)\<lparr>param_upgrade := Some True\<rparr>) [] []
     = (ExitJson True ''upgraded AUR packages'', [upgrade_cmd example_base]) \<and>
   run example_env example_packer
       ((example_params [] ''present'' False)\<lparr>param_upgrade := Some True\<rparr>) []
     = (ExitJson True ''upgraded AUR packages'', [upgrade_cmd example_base]) \<and>
   respond example_env [] (upgrade_cmd (example_base @ '' --root /mnt'')) = (1, [], ''error'') \<and>
   install_packages example_env example_packer
       ((example_params [] ''present'' False)\<lparr>param_upgrade := Some True, param_root := Some ''/mnt''\<rparr>)
       [''foo''] []
     = (FailJson (Some ''failed to upgrade packages: error''),
        [upgrade_cmd (example_base @ '' --root /mnt'')])"
proof -
  let ?M = "(example_params [] ''present'' False)\<lparr>param_upgrade := Some True\<rparr>"
  let ?R = "(example_params [] ''present'' False)\<lparr>param_upgrade := Some True, param_root := Some ''/mnt''\<rparr>"
  have up: "truthy (should_upgrade ?M)" "truthy (should_upgrade ?R)" by code_simp+
  have ln: "login_name example_env [] = (Inr (Some ''root''), [])" by code_simp
  have pw: "getpwuid_name example_env = Some ''root''" by code_simp
  have bm: "base_command example_env example_packer ?M (Some ''root'' \<noteq> Some ''root'') (Some ''root'')
      = Inr example_base" by code_simp
  have br: "base_command example_env example_packer ?R (Some ''root'' \<noteq> Some ''root'') (Some ''root'')
      = Inr (example_base @ '' --root /mnt'')" by code_simp
  have rm: "respond example_env [] (upgrade_cmd example_base) = (0, [], [])" by code_simp
  have rr: "respond example_env [] (upgrade_cmd (example_base @ '' --root /mnt'')) = (1, [], ''error'')"
    by code_simp
  have nm: "\<not> check_mode ?M" by code_simp
  have cp: "check_packages example_env example_packer ?M (requested_names ?M) [] = (Inr ([], [], []), [])"
    by code_simp
  from C7_bulk_upgrade_first [OF up(1) ln pw bm rm, of "[]" "[]" "[]"] nm cp
  have a: "install_packages example_env example_packer ?M [] []
       = (ExitJson True ''upgraded AUR packages'', [upgrade_cmd example_base])"
    and b: "run example_env example_packer ?M [] = install_packages example_env example_packer ?M [] []"
    by simp_all
  from C7_bulk_upgrade_first [OF up(2) ln pw br rr, of "[''foo'']"]
  have c: "install_packages example_env example_packer ?R [''foo''] []
     = (FailJson (Some ''failed to upgrade packages: error''),
        [upgrade_cmd (example_base @ '' --root /mnt'')])"
    by simp
  from up(1) ln pw rm rr a b c show ?thesis by simp
qed

text \<open>
  Claim C8. Installs run one after the other in the order of the list. When the installs
  of the first \<open>k\<close> names exit with 0 and the next one does not, the run is fatal, the
  message names that package and carries the stderr of the command, the commands run are
  the installs of these \<open>k + 1\<close> names and no other, and the hint about passwordless
  sudo is appended exactly when the process user is the resolved identity, that is when the
  command prefix is the helper alone and not \<^verbatim>\<open>sudo -u\<close>.
\<close>

theorem C8_install_failure_is_fatal:
  assumes "login_name E log = (Inr login, log1)"
    and "getpwuid_name E = Some user"
    and "base_command E P M (Some user \<noteq> login) login = Inr base"
    and "truthy (should_upgrade M) \<longrightarrow> fst (respond E log1 (upgrade_cmd base)) = 0"
    and "log2 = (if truthy (should_upgrade M) then log1 @ [upgrade_cmd base] else log1)"
    and "k < length pkgs"
    and "\<forall>i<k. fst (respond E (log2 @ map (install_cmd base) (take i pkgs))
                    (install_cmd base (pkgs ! i))) = 0"
    and "respond E (log2 @ map (install_cmd base) (take k pkgs)) (install_cmd base (pkgs ! k))
           = (rc, out, err)"
    and "rc \<noteq> 0"
  shows "install_packages E P M pkgs log =
           (FailJson (Some (''failed to install package '' @ pkgs ! k @ '': '' @ err @
                (if Some user = login
                 then '' (do you have passwordless sudo as user '' @ str_opt login @ ''?)''
                 else []))),
            log2 @ map (install_cmd base) (take (Suc k) pkgs)) \<and>
         (Some user = login \<longrightarrow> (\<exists>rest. base = packer_path P @ rest)) \<and>
         (Some user \<noteq> login \<longrightarrow>
            (\<exists>sudo_path rest. get_bin_path E ''sudo'' = Some sudo_path \<and>
               base = sudo_path @ '' -u '' @ str_opt login @ '' '' @ packer_path P @ rest))"
proof -
  from assms(6) have ne: "\<not> length pkgs < 1" by (cases pkgs) simp_all
  have "install_packages E P M pkgs log = install_loop E base (Some user \<noteq> login) login pkgs 0 log2"
  proof (cases "truthy (should_upgrade M)")
    case True
    with assms(4) obtain o1 e1 where "respond E log1 (upgrade_cmd base) = (0, o1, e1)"
      by (cases "respond E log1 (upgrade_cmd base)") auto
    with True ne assms(5) show ?thesis
      by (simp add: install_packages_unfold [OF assms(1,2,3)] run_command_def)
  next
    case False
    with assms(5) show ?thesis
      by (simp add: install_packages_unfold [OF assms(1,2,3)])
  qed
  also have "\<dots> = (FailJson (Some (install_failure_msg (Some user \<noteq> login) login (pkgs ! k) err)),
      log2 @ map (install_cmd base) (take (Suc k) pkgs))"
    by (rule install_loop_fail [OF assms(6,7,8,9)])
  finally have p1: "install_packages E P M pkgs log =
           (FailJson (Some (''failed to install package '' @ pkgs ! k @ '': '' @ err @
                (if Some user = login
                 then '' (do you have passwordless sudo as user '' @ str_opt login @ ''?)''
                 else []))),
            log2 @ map (install_cmd base) (take (Suc k) pkgs))"
    by (simp add: install_failure_msg_def Let_def)
  from base_command_prefix [OF assms(3)]
  have p2: "Some user = login \<longrightarrow> (\<exists>rest. base = packer_path P @ rest)"
    and p3: "Some user \<noteq> login \<longrightarrow>
            (\<exists>sudo_path rest. get_bin_path E ''sudo'' = Some sudo_path \<and>
               base = sudo_path @ '' -u '' @ str_opt login @ '' '' @ packer_path P @ rest)"
    by auto
  show ?thesis by (intro conjI) (fact p1, fact p2, fact p3)
qed

theorem C8_install_failure_is_fatal_witness:
  "login_name example_env [] = (Inr (Some ''root''), []) \<and>
   getpwuid_name example_env = Some ''root'' \<and>
   fst (respond example_env [] (install_cmd example_base ''foo'')) = 0 \<and>
   respond example_env [install_cmd example_base ''foo''] (install_cmd example_base ''bar'')
     = (1, [], ''error'') \<and>
   install_packages example_env example_packer (example_params [] ''present'' False)
       [''foo'', ''bar'', ''baz''] []
     = (FailJson (Some
         ''failed to install package bar: error (do you have passwordless sudo as user root?)''),
        [install_cmd example_base ''foo'', install_cmd example_base ''bar'']) \<and>
   login_name example_env_alice [] = (Inr (Some ''alice''), []) \<and>
   getpwuid_name example_env_alice = Some ''root'' \<and>
   install_packages example_env_alice example_packer (example_params [] ''present'' False)
       [''foo'', ''bar'', ''baz''] []
     = (FailJson (Some ''failed to install package foo: error''),
        [install_cmd (''/usr/bin/sudo -u alice '' @ example_base) ''foo''])"
proof -
  let ?M = "example_params [] ''present'' False"
  have nu: "\<not> truthy (should_upgrade ?M)" by code_simp
  have ln: "login_name example_env [] = (Inr (Some ''root''), [])" by code_simp
  have pw: "getpwuid_name example_env = Some ''root''" by code_simp
  have bm: "base_command example_env example_packer ?M (Some ''root'' \<noteq> Some ''root'') (Some ''root'')
      = Inr example_base" by code_simp
  have r0: "fst (respond example_env [] (install_cmd example_base ''foo'')) = 0" by code_simp
  have r1: "respond example_env [install_cmd example_base ''foo''] (install_cmd example_base ''bar'')
     = (1, [], ''error'')" by code_simp
  have la: "login_name example_env_alice [] = (Inr (Some ''alice''), [])" by code_simp
  have pa: "getpwuid_name example_env_alice = Some ''root''" by code_simp
  have ba: "base_command example_env_alice example_packer ?M (Some ''root'' \<noteq> Some ''alice'') (Some ''alice'')
      = Inr (''/usr/bin/sudo -u alice '' @ example_base)" by code_simp
  have ra: "respond example_env_alice [] (install_cmd (''/usr/bin/sudo -u alice '' @ example_base) ''foo'')
     = (1, [], ''error'')" by code_simp
  have a: "install_packages example_env example_packer ?M [''foo'', ''bar'', ''baz''] []
     = (FailJson (Some
         ''failed to install package bar: error (do you have passwordless sudo as user root?)''),
        [install_cmd example_base ''foo'', install_cmd example_base ''bar''])"
    using C8_install_failure_is_fatal [OF ln pw bm, where ?log2.0 = "[]" and k = 1
        and pkgs = "[''foo'', ''bar'', ''baz'']" and rc = 1 and out = "[]" and err = "''error''"]
      nu r0 r1
    by (simp add: str_opt_def)
  have b: "install_packages example_env_alice example_packer ?M [''foo'', ''bar'', ''baz''] []
     = (FailJson (Some ''failed to install package foo: error''),
        [install_cmd (''/usr/bin/sudo -u alice '' @ example_base) ''foo''])"
    using C8_install_failure_is_fatal [OF la pa ba, where ?log2.0 = "[]" and k = 0
        and pkgs = "[''foo'', ''bar'', ''baz'']" and rc = 1 and out = "[]" and err = "''error''"]
      nu ra
    by simp
  from ln pw r0 r1 la pa a b show ?thesis by simp
qed

end
